theory Spec2Isabelle
  imports Complex_Main "HOL-Library.Sublist"
begin

section \<open>Python values\<close>

text \<open>
  The functions of \<^verbatim>\<open>app.py\<close> work on the objects that \<^verbatim>\<open>json.loads\<close> returns:
  \<^verbatim>\<open>None\<close>, booleans, unbounded integers, floats, strings, lists and dictionaries.
  A Python \<^verbatim>\<open>str\<close> is modelled as a \<^typ>\<open>string\<close> whose characters are its code
  points (code points below 256). A dictionary is an association list; a lookup finds
  the first pair with the key.
\<close>

datatype pyfloat = Finite rat | PosInf | NegInf | NaN

datatype json =
    JNull
  | JBool bool
  | JInt int
  | JFloat pyfloat
  | JStr string
  | JArr "json list"
  | JObj "(string \<times> json) list"

text \<open>The exceptions the modelled code can raise; every one is a subclass of \<^verbatim>\<open>Exception\<close>.\<close>

datatype exn =
    TypeError | AttributeError | ValueError | KeyError | IndexError | OSError | TimeoutError

type_synonym 'a result = "exn + 'a"

definition bindr :: "'a result \<Rightarrow> ('a \<Rightarrow> 'b result) \<Rightarrow> 'b result" where
  "bindr m f = (case m of Inl e \<Rightarrow> Inl e | Inr x \<Rightarrow> f x)"

text \<open>\<^verbatim>\<open>obj.get(key, default)\<close>: only a dictionary has the method.\<close>

fun dict_get :: "json \<Rightarrow> string \<Rightarrow> json \<Rightarrow> json result" where
  "dict_get (JObj kvs) k d = Inr (case map_of kvs k of Some v \<Rightarrow> v | None \<Rightarrow> d)"
| "dict_get _ k d = Inl AttributeError"

text \<open>Truth value of an object, as \<^verbatim>\<open>if obj:\<close> tests it.\<close>

fun py_truthy :: "json \<Rightarrow> bool" where
  "py_truthy JNull = False"
| "py_truthy (JBool b) = b"
| "py_truthy (JInt n) = (n \<noteq> 0)"
| "py_truthy (JFloat f) = (f \<noteq> Finite 0)"
| "py_truthy (JStr s) = (s \<noteq> [])"
| "py_truthy (JArr xs) = (xs \<noteq> [])"
| "py_truthy (JObj kvs) = (kvs \<noteq> [])"

text \<open>\<^verbatim>\<open>obj == n\<close> for an integer literal \<^verbatim>\<open>n\<close>: numbers compare by value
  (\<^verbatim>\<open>100.0 == 100\<close>, \<^verbatim>\<open>True == 1\<close>), every other object is unequal.\<close>

fun py_eq_int :: "json \<Rightarrow> int \<Rightarrow> bool" where
  "py_eq_int (JInt m) n = (m = n)"
| "py_eq_int (JFloat (Finite q)) n = (q = of_int n)"
| "py_eq_int (JBool b) n = ((if b then 1 else 0) = n)"
| "py_eq_int _ n = False"

text \<open>\<^verbatim>\<open>len(obj)\<close> and iteration \<^verbatim>\<open>for x in obj\<close>: defined on strings, lists and
  dictionaries (a dictionary yields its keys), a \<^verbatim>\<open>TypeError\<close> on the rest.\<close>

fun py_len :: "json \<Rightarrow> nat result" where
  "py_len (JStr s) = Inr (length s)"
| "py_len (JArr xs) = Inr (length xs)"
| "py_len (JObj kvs) = Inr (length (remdups (map fst kvs)))"
| "py_len _ = Inl TypeError"

fun py_iter :: "json \<Rightarrow> json list result" where
  "py_iter (JStr s) = Inr (map (\<lambda>c. JStr [c]) s)"
| "py_iter (JArr xs) = Inr xs"
| "py_iter (JObj kvs) = Inr (map JStr (remdups (map fst kvs)))"
| "py_iter _ = Inl TypeError"

text \<open>\<^verbatim>\<open>s in obj\<close> for a string \<^verbatim>\<open>s\<close>: substring test on a string, membership in a
  list, key test on a dictionary, a \<^verbatim>\<open>TypeError\<close> on the rest.\<close>

fun str_in :: "string \<Rightarrow> json \<Rightarrow> bool result" where
  "str_in s (JStr t) = Inr (sublist s t)"
| "str_in s (JArr xs) = Inr (JStr s \<in> set xs)"
| "str_in s (JObj kvs) = Inr (s \<in> set (map fst kvs))"
| "str_in s _ = Inl TypeError"

subsection \<open>String operations\<close>

text \<open>\<^verbatim>\<open>s.split(d)\<close> for a one-character separator: always at least one piece.\<close>

fun split_char :: "char \<Rightarrow> string \<Rightarrow> string list" where
  "split_char d [] = [[]]"
| "split_char d (c # cs) =
     (if c = d then [] # split_char d cs
      else (case split_char d cs of [] \<Rightarrow> [[c]] | w # ws \<Rightarrow> (c # w) # ws))"

text \<open>\<^verbatim>\<open>s.split(sep, 1)\<close> for a non-empty separator: cut at the first occurrence
  of \<^verbatim>\<open>sep\<close>, one piece when there is none.\<close>

fun split_once :: "string \<Rightarrow> string \<Rightarrow> string list" where
  "split_once sep [] = [[]]"
| "split_once sep (c # cs) =
     (if prefix sep (c # cs) then [[], drop (length sep) (c # cs)]
      else (case split_once sep cs of
              [a, b] \<Rightarrow> [c # a, b]
            | _ \<Rightarrow> [c # cs]))"

text \<open>\<^verbatim>\<open>Path(p).name\<close> on a POSIX path: the last component that is neither empty nor
  \<^verbatim>\<open>.\<close>, the empty string when there is none. \<^verbatim>\<open>Path\<close> takes a string only.\<close>

fun path_name :: "json \<Rightarrow> string result" where
  "path_name (JStr p) =
     (let parts = filter (\<lambda>x. x \<noteq> [] \<and> x \<noteq> ''.'') (split_char CHR ''/'' p)
      in Inr (if parts = [] then [] else last parts))"
| "path_name _ = Inl TypeError"

subsection \<open>The two regular expressions\<close>

definition is_digit :: "char \<Rightarrow> bool" where
  "is_digit c = (c \<in> set ''0123456789'')"

text \<open>\<^verbatim>\<open>\s\<close> on a \<^verbatim>\<open>str\<close> pattern: the characters Python counts as white space.\<close>

definition is_space :: "char \<Rightarrow> bool" where
  "is_space c = (let n = (of_char c :: nat)
                 in (9 \<le> n \<and> n \<le> 13) \<or> (28 \<le> n \<and> n \<le> 32) \<or> n = 133 \<or> n = 160)"

definition is_index_sep :: "char \<Rightarrow> bool" where
  "is_index_sep c = (c = CHR ''='' \<or> c = CHR '':'' \<or> is_space c)"

text \<open>\<^verbatim>\<open>re.search\<close> tries the pattern at every position from the left and returns the
  first match.\<close>

fun re_search :: "(string \<Rightarrow> 'a option) \<Rightarrow> string \<Rightarrow> 'a option" where
  "re_search m [] = m []"
| "re_search m (c # cs) = (case m (c # cs) of Some r \<Rightarrow> Some r | None \<Rightarrow> re_search m cs)"

definition rekor_prefix :: string where
  "rekor_prefix = ''https://rekor.sigstore.dev/api/v1/log/entries/?logIndex=''"

text \<open>The pattern
  \<^verbatim>\<open>(https://rekor\.sigstore\.dev/api/v1/log/entries/\?logIndex=\d+)\<close> at the start of
  \<open>s\<close>: the literal text, then the longest non-empty run of digits; group 1 is the
  whole match.\<close>

definition rekor_match_at :: "string \<Rightarrow> string option" where
  "rekor_match_at s =
     (if prefix rekor_prefix s
      then (let ds = takeWhile is_digit (drop (length rekor_prefix) s)
            in if ds = [] then None else Some (rekor_prefix @ ds))
      else None)"

text \<open>The pattern \<^verbatim>\<open>logIndex[=:\s]+(\d+)\<close> at the start of \<open>s\<close>: the separators and
  the digits are disjoint character classes, so the greedy run of separators is the
  only one that can be followed by a digit; group 1 is the run of digits.\<close>

definition index_match_at :: "string \<Rightarrow> string option" where
  "index_match_at s =
     (if prefix ''logIndex'' s
      then (let rest = drop (length ''logIndex'') s;
                seps = takeWhile is_index_sep rest;
                ds = takeWhile is_digit (dropWhile is_index_sep rest)
            in if seps = [] \<or> ds = [] then None else Some ds)
      else None)"

section \<open>Verifier output normalizer\<close>

text \<open>One entry of \<^verbatim>\<open>results["packages"]\<close>. In the legacy shape the name can be the
  entry's \<^verbatim>\<open>path\<close> and the method the entry's \<^verbatim>\<open>verificationMethod\<close>, both taken
  from the input as they are, so they are JSON values.\<close>

record package =
  name :: json
  version :: string
  verified :: bool
  details :: json
  verification_method :: json
  rekor_url :: "string option"

text \<open>The dictionary \<^verbatim>\<open>results\<close> of \<^verbatim>\<open>parse_chainver_output\<close>; its key
  \<^verbatim>\<open>details\<close> is the field \<open>results_details\<close>.\<close>

record chainver_results =
  verified_count :: nat
  total_count :: nat
  packages :: "package list"
  overall_coverage :: json
  artifact_coverage :: json
  results_details :: json

text \<open>The block \<^verbatim>\<open># Extract Rekor log URL if available\<close>, which the source has once in
  each branch with the same text. The \<^verbatim>\<open>and\<close> does not evaluate the \<^verbatim>\<open>in\<close> test of
  an unverified entry; \<^verbatim>\<open>re.search\<close> raises a \<^verbatim>\<open>TypeError\<close> on anything but a
  string.\<close>

definition extract_rekor_url :: "bool \<Rightarrow> json \<Rightarrow> string option result" where
  "extract_rekor_url is_verified details_str =
     (if \<not> is_verified then Inr None
      else bindr (str_in ''rekor.sigstore.dev'' details_str) (\<lambda>found.
        if \<not> found then Inr None
        else (case details_str of
                JStr s \<Rightarrow>
                  (case re_search rekor_match_at s of
                     Some u \<Rightarrow> Inr (Some u)
                   | None \<Rightarrow>
                       (case re_search index_match_at s of
                          Some i \<Rightarrow> Inr (Some (''https://search.sigstore.dev/?logIndex='' @ i))
                        | None \<Rightarrow> Inr None))
              | _ \<Rightarrow> Inl TypeError)))"

text \<open>The file name \<^verbatim>\<open>package-version-py3-none-any.whl\<close> of a wheel.\<close>

definition parse_filename :: "string \<Rightarrow> string \<times> string" where
  "parse_filename filename =
     (if suffix ''.whl'' filename
      then (let name_parts = split_char CHR ''-'' (take (length filename - 4) filename)
            in if length name_parts \<ge> 2 then (name_parts ! 0, name_parts ! 1)
               else (filename, []))
      else (filename, []))"

text \<open>The body of the loop over \<^verbatim>\<open>artifact_results\<close>, up to the record it appends.\<close>

definition parse_artifact :: "json \<Rightarrow> package result" where
  "parse_artifact artifact =
     bindr (dict_get artifact ''artifact'' (JStr [])) (\<lambda>artifact_path.
     bindr (path_name artifact_path) (\<lambda>filename.
     bindr (dict_get artifact ''artifactVerificationCoverage'' (JInt 0)) (\<lambda>coverage.
     let is_verified = py_eq_int coverage 100 in
     bindr (dict_get artifact ''details'' (JStr [])) (\<lambda>details_str.
     bindr (extract_rekor_url is_verified details_str) (\<lambda>url.
     Inr \<lparr> name = JStr (fst (parse_filename filename)),
           version = snd (parse_filename filename),
           verified = is_verified,
           details = details_str,
           verification_method = JStr (if is_verified then ''signature'' else ''none''),
           rekor_url = url \<rparr>)))))"

text \<open>The body of the loop over \<^verbatim>\<open>nested_results\<close>. A \<^verbatim>\<open>coordinates\<close> value that
  is not a string has no \<^verbatim>\<open>split\<close>; the two targets of the assignment need two
  pieces.\<close>

definition parse_nested :: "json \<Rightarrow> package result" where
  "parse_nested pkg_result =
     bindr (dict_get pkg_result ''coordinates'' (JStr [])) (\<lambda>coordinates.
     bindr (str_in ''=='' coordinates) (\<lambda>has_sep.
     bindr (if has_sep
            then (case coordinates of
                    JStr s \<Rightarrow>
                      (case split_once ''=='' s of
                         [n, v] \<Rightarrow> Inr (JStr n, v)
                       | _ \<Rightarrow> Inl ValueError)
                  | _ \<Rightarrow> Inl AttributeError)
            else bindr (dict_get pkg_result ''path'' (JStr ''Unknown'')) (\<lambda>p. Inr (p, [])))
       (\<lambda>(nm, ver).
     bindr (dict_get pkg_result ''verificationCoverage'' (JInt 0)) (\<lambda>coverage.
     let is_verified = py_eq_int coverage 100 in
     bindr (dict_get pkg_result ''details'' (JStr [])) (\<lambda>details_str.
     bindr (extract_rekor_url is_verified details_str) (\<lambda>url.
     bindr (dict_get pkg_result ''verificationMethod'' (JStr ''none'')) (\<lambda>method.
     Inr \<lparr> name = nm,
           version = ver,
           verified = is_verified,
           details = details_str,
           verification_method = method,
           rekor_url = url \<rparr>)))))))"

text \<open>The \<^verbatim>\<open>for\<close> loops: each round adds one to \<^verbatim>\<open>verified_count\<close> for a verified
  entry and appends the entry's record; an exception in a round leaves the function.\<close>

fun entry_loop :: "(json \<Rightarrow> package result) \<Rightarrow> json list \<Rightarrow> chainver_results
    \<Rightarrow> chainver_results result" where
  "entry_loop body [] results = Inr results"
| "entry_loop body (x # xs) results =
     bindr (body x) (\<lambda>p.
       entry_loop body xs
         (results\<lparr> verified_count := verified_count results + (if verified p then 1 else 0),
                   packages := packages results @ [p] \<rparr>))"

definition parse_chainver_output :: "json \<Rightarrow> chainver_results result" where
  "parse_chainver_output chainver_data =
     bindr (dict_get chainver_data ''artifactVerificationCoverage'' (JInt 0)) (\<lambda>dflt.
     bindr (dict_get chainver_data ''overallVerificationCoverage'' dflt) (\<lambda>overall.
     bindr (dict_get chainver_data ''artifactVerificationCoverage'' (JInt 0)) (\<lambda>per_artifact.
     bindr (dict_get chainver_data ''details'' (JStr [])) (\<lambda>dets.
     let results = \<lparr> verified_count = 0, total_count = 0, packages = [],
                       overall_coverage = overall, artifact_coverage = per_artifact,
                       results_details = dets \<rparr> in
     bindr (dict_get chainver_data ''results'' (JArr [])) (\<lambda>artifact_results.
     if py_truthy artifact_results
     then bindr (py_len artifact_results) (\<lambda>n.
          bindr (py_iter artifact_results) (\<lambda>entries.
          entry_loop parse_artifact entries (results\<lparr> total_count := n \<rparr>)))
     else bindr (dict_get chainver_data ''nestedResults'' (JArr [])) (\<lambda>nested_results.
          bindr (py_len nested_results) (\<lambda>n.
          bindr (py_iter nested_results) (\<lambda>entries.
          entry_loop parse_nested entries (results\<lparr> total_count := n \<rparr>)))))))))"

section \<open>Archive inspector\<close>

text \<open>What \<^verbatim>\<open>get_wheel_contents\<close> reads of a \<^verbatim>\<open>ZipInfo\<close>.\<close>

record zipinfo =
  zi_filename :: string
  zi_file_size :: nat
  zi_compress_size :: nat

text \<open>One dictionary of \<^verbatim>\<open>file_info\<close>, with the keys \<^verbatim>\<open>path\<close>, \<^verbatim>\<open>size\<close>,
  \<^verbatim>\<open>compressed_size\<close> and \<^verbatim>\<open>is_dir\<close>.\<close>

record file_entry =
  fi_path :: string
  fi_size :: nat
  fi_compressed_size :: nat
  fi_is_dir :: bool

text \<open>A node of the tree: a dictionary with the key \<^verbatim>\<open>type\<close> and, when they were set,
  the keys \<^verbatim>\<open>size\<close>, \<^verbatim>\<open>path\<close> and \<^verbatim>\<open>children\<close>. A level of the tree is a
  dictionary from path segments to nodes, kept in insertion order.\<close>

datatype node =
  Node (node_type: string) (node_size: "nat option") (node_path: "string option")
       (node_children: "(string \<times> node) list option")

type_synonym tree = "(string \<times> node) list"

text \<open>\<^verbatim>\<open>d[k] = v\<close>: an existing key keeps its place, a new key goes last.\<close>

fun dict_set :: "'k \<Rightarrow> 'v \<Rightarrow> ('k \<times> 'v) list \<Rightarrow> ('k \<times> 'v) list" where
  "dict_set k v [] = [(k, v)]"
| "dict_set k v ((k', v') # kvs) =
     (if k' = k then (k, v) # kvs else (k', v') # dict_set k v kvs)"

text \<open>The inner loop of \<^verbatim>\<open>build_file_tree\<close> for one item, on the path segments that
  remain, in the dictionary \<^verbatim>\<open>current\<close>. The source walks down by aliasing
  \<^verbatim>\<open>current = current[part]["children"]\<close> and mutates in place; the model rebuilds the
  node it descended through.\<close>

fun insert_path :: "file_entry \<Rightarrow> string list \<Rightarrow> tree \<Rightarrow> tree" where
  "insert_path item [] current = current"
| "insert_path item [part] current =
     (if part \<noteq> []
      then dict_set part
             (Node (if fi_is_dir item then ''dir'' else ''file'')
                   (Some (fi_size item)) (Some (fi_path item)) None) current
      else current)"
| "insert_path item (part # rest) current =
     (case map_of current part of
        None \<Rightarrow>
          dict_set part (Node ''dir'' None None (Some (insert_path item rest []))) current
      | Some (Node t s p ch) \<Rightarrow>
          dict_set part
            (Node t s p (Some (insert_path item rest (case ch of None \<Rightarrow> [] | Some c \<Rightarrow> c))))
            current)"

definition build_file_tree :: "file_entry list \<Rightarrow> tree" where
  "build_file_tree file_info =
     foldl (\<lambda>tree item. insert_path item (split_char CHR ''/'' (fi_path item)) tree)
       [] file_info"

text \<open>\<^verbatim>\<open>ZipFile.getinfo(name)\<close>: the archive's directory keeps, for a name, the last
  entry read with it; an unknown name is a \<^verbatim>\<open>KeyError\<close>.\<close>

definition getinfo :: "zipinfo list \<Rightarrow> string \<Rightarrow> zipinfo result" where
  "getinfo wheel_zip nm =
     (case filter (\<lambda>z. zi_filename z = nm) wheel_zip of
        [] \<Rightarrow> Inl KeyError
      | z # zs \<Rightarrow> Inr (last (z # zs)))"

text \<open>The loop \<^verbatim>\<open>for filename in file_list\<close> with its two accumulators.\<close>

fun file_info_loop :: "zipinfo list \<Rightarrow> string list \<Rightarrow> file_entry list \<Rightarrow> nat
    \<Rightarrow> (file_entry list \<times> nat) result" where
  "file_info_loop wheel_zip [] file_info total_size = Inr (file_info, total_size)"
| "file_info_loop wheel_zip (fname # rest) file_info total_size =
     bindr (getinfo wheel_zip fname) (\<lambda>info.
       file_info_loop wheel_zip rest
         (file_info @ [\<lparr> fi_path = fname, fi_size = zi_file_size info,
                          fi_compressed_size = zi_compress_size info,
                          fi_is_dir = suffix ''/'' fname \<rparr>])
         (total_size + zi_file_size info))"

record manifest =
  mf_package :: string
  mf_version :: string
  mf_wheel_file :: string
  mf_total_files :: nat
  mf_total_size :: nat
  mf_files :: "file_entry list"
  mf_tree :: tree

text \<open>What \<^verbatim>\<open>get_wheel_contents\<close> returns: the dictionary with the key \<^verbatim>\<open>error\<close>, for
  no matching wheel or for an exception, or the manifest.\<close>

datatype wheel_contents =
    WheelNotFound string
  | WheelException exn
  | WheelManifest manifest

text \<open>The environment of \<^verbatim>\<open>get_wheel_contents\<close> is the result of the glob for
  \<^verbatim>\<open>{package_name}-{version}-*.whl\<close>: the matching files, each with its name and the
  entries of its archive, or the exception that opening it as a zip file raises.\<close>

definition get_wheel_contents ::
    "(string \<times> zipinfo list result) list \<Rightarrow> string \<Rightarrow> string \<Rightarrow> wheel_contents" where
  "get_wheel_contents wheel_files package_name ver =
     (case wheel_files of
        [] \<Rightarrow> WheelNotFound (''Wheel file not found for '' @ package_name @ '' '' @ ver)
      | (wheel_name, archive) # _ \<Rightarrow>
          (case bindr archive (\<lambda>wheel_zip.
                  let file_list = map zi_filename wheel_zip in
                  bindr (file_info_loop wheel_zip file_list [] 0) (\<lambda>(file_info, total_size).
                  Inr \<lparr> mf_package = package_name, mf_version = ver,
                        mf_wheel_file = wheel_name,
                        mf_total_files = length file_list,
                        mf_total_size = total_size,
                        mf_files = file_info,
                        mf_tree = build_file_tree file_info \<rparr>)) of
             Inl e \<Rightarrow> WheelException e
           | Inr m \<Rightarrow> WheelManifest m))"

section \<open>Source reference resolver\<close>

text \<open>The bytes a process wrote, seen through \<^verbatim>\<open>bytes.decode()\<close>, the only way the
  code reads them: the text they encode, or not valid UTF-8. Empty bytes are
  \<open>Text []\<close>.\<close>

datatype decoded = Undecodable | Text string

fun decode :: "decoded \<Rightarrow> string result" where
  "decode (Text t) = Inr t"
| "decode Undecodable = Inl ValueError"

text \<open>A process that ran to its end within the time limit: return code, standard
  output, standard error.\<close>

datatype completed = Completed (returncode: int) (stdout: decoded) (stderr: decoded)

text \<open>\<^verbatim>\<open>s.strip()\<close>\<close>

definition py_strip :: "string \<Rightarrow> string" where
  "py_strip s = rev (dropWhile is_space (rev (dropWhile is_space s)))"




section \<open>Attestation decoder\<close>

text \<open>\<^verbatim>\<open>obj[key]\<close> for a string key and \<^verbatim>\<open>obj[0]\<close>.\<close>

fun subscript_key :: "json \<Rightarrow> string \<Rightarrow> json result" where
  "subscript_key (JObj kvs) k = (case map_of kvs k of Some v \<Rightarrow> Inr v | None \<Rightarrow> Inl KeyError)"
| "subscript_key _ k = Inl TypeError"

fun subscript_zero :: "json \<Rightarrow> json result" where
  "subscript_zero (JArr xs) = (case xs of [] \<Rightarrow> Inl IndexError | x # _ \<Rightarrow> Inr x)"
| "subscript_zero (JStr s) = (case s of [] \<Rightarrow> Inl IndexError | c # _ \<Rightarrow> Inr (JStr [c]))"
| "subscript_zero (JObj kvs) = Inl KeyError"
| "subscript_zero _ = Inl TypeError"

text \<open>A loop that appends one result for each element; an exception leaves it.\<close>

fun map_result :: "('a \<Rightarrow> 'b result) \<Rightarrow> 'a list \<Rightarrow> 'b list result" where
  "map_result f [] = Inr []"
| "map_result f (x # xs) =
     bindr (f x) (\<lambda>y. bindr (map_result f xs) (\<lambda>ys. Inr (y # ys)))"

text \<open>The keys that \<^verbatim>\<open>att_info\<close> gets from a decoded statement.\<close>

record statement_info =
  subject :: json
  build_type :: json
  external_parameters :: json
  internal_parameters :: json
  resolved_dependencies :: json
  builder :: json
  metadata :: json

text \<open>The dictionary under the key \<^verbatim>\<open>verification\<close>; the last two keys are set only
  when there is a transparency entry.\<close>

record verification =
  certificate_length :: nat
  transparency_entries :: nat
  log_index :: "json option"
  integrated_time :: "json option"

text \<open>\<^verbatim>\<open>att_info\<close>: the key \<^verbatim>\<open>version\<close>, the statement's keys when the envelope has a
  statement, the key \<^verbatim>\<open>verification\<close> when there is verification material.\<close>

record att_info =
  att_version :: json
  att_statement :: "statement_info option"
  att_verification :: "verification option"

record bundle_info =
  publisher :: json
  attestations :: "att_info list"

record provenance =
  prov_version :: json
  bundles :: "bundle_info list"

text \<open>The statement of an envelope goes through
  \<^verbatim>\<open>json.loads(base64.b64decode(...).decode('utf-8'))\<close>, three library functions. The
  model takes their composition on a string as the parameter \<open>b64_json\<close>: the object the
  string decodes to, or the exception one of the three raises. Anything but a string
  is a \<^verbatim>\<open>TypeError\<close> of \<^verbatim>\<open>b64decode\<close>.\<close>

definition decode_statement :: "(string \<Rightarrow> json result) \<Rightarrow> json \<Rightarrow> json result" where
  "decode_statement b64_json v = (case v of JStr s \<Rightarrow> b64_json s | _ \<Rightarrow> Inl TypeError)"

definition parse_statement :: "(string \<Rightarrow> json result) \<Rightarrow> json \<Rightarrow> statement_info option result"
  where
  "parse_statement b64_json envelope =
     bindr (str_in ''statement'' envelope) (\<lambda>present.
     if \<not> present then Inr None
     else bindr (subscript_key envelope ''statement'') (\<lambda>encoded.
          bindr (decode_statement b64_json encoded) (\<lambda>statement.
          bindr (dict_get statement ''subject'' (JArr [])) (\<lambda>subj.
          bindr (dict_get statement ''predicate'' (JObj [])) (\<lambda>predicate.
          bindr (dict_get predicate ''buildDefinition'' (JObj [])) (\<lambda>build_def.
          bindr (dict_get build_def ''buildType'' (JStr [])) (\<lambda>bt.
          bindr (dict_get build_def ''externalParameters'' (JObj [])) (\<lambda>ep.
          bindr (dict_get build_def ''internalParameters'' (JObj [])) (\<lambda>ip.
          bindr (dict_get build_def ''resolvedDependencies'' (JArr [])) (\<lambda>rd.
          bindr (dict_get predicate ''runDetails'' (JObj [])) (\<lambda>run_details.
          bindr (dict_get run_details ''builder'' (JObj [])) (\<lambda>bld.
          bindr (dict_get run_details ''metadata'' (JObj [])) (\<lambda>md.
          Inr (Some \<lparr> subject = subj, build_type = bt, external_parameters = ep,
                      internal_parameters = ip, resolved_dependencies = rd,
                      builder = bld, metadata = md \<rparr>))))))))))))))"

definition parse_verification :: "json \<Rightarrow> verification option result" where
  "parse_verification verif_material =
     (if \<not> py_truthy verif_material then Inr None
      else bindr (dict_get verif_material ''certificate'' (JStr [])) (\<lambda>cert.
           bindr (py_len cert) (\<lambda>cert_len.
           bindr (dict_get verif_material ''transparency_entries'' (JArr [])) (\<lambda>entries.
           bindr (py_len entries) (\<lambda>n_entries.
           bindr (dict_get verif_material ''transparency_entries'' JNull) (\<lambda>entries'.
           if \<not> py_truthy entries'
           then Inr (Some \<lparr> certificate_length = cert_len, transparency_entries = n_entries,
                            log_index = None, integrated_time = None \<rparr>)
           else bindr (subscript_key verif_material ''transparency_entries'') (\<lambda>es.
                bindr (subscript_zero es) (\<lambda>entry.
                bindr (dict_get entry ''logIndex'' (JStr [])) (\<lambda>li.
                bindr (dict_get entry ''integratedTime'' (JStr [])) (\<lambda>it.
                Inr (Some \<lparr> certificate_length = cert_len, transparency_entries = n_entries,
                            log_index = Some li, integrated_time = Some it \<rparr>)))))))))))"

text \<open>The body of the loop over the attestations of a bundle.\<close>

definition parse_attestation :: "(string \<Rightarrow> json result) \<Rightarrow> json \<Rightarrow> att_info result" where
  "parse_attestation b64_json attestation =
     bindr (dict_get attestation ''version'' (JInt 1)) (\<lambda>v.
     bindr (dict_get attestation ''envelope'' (JObj [])) (\<lambda>envelope.
     bindr (parse_statement b64_json envelope) (\<lambda>st.
     bindr (dict_get attestation ''verification_material'' (JObj [])) (\<lambda>verif_material.
     bindr (parse_verification verif_material) (\<lambda>vm.
     Inr \<lparr> att_version = v, att_statement = st, att_verification = vm \<rparr>)))))"

text \<open>The body of the loop over the bundles.\<close>

definition parse_bundle :: "(string \<Rightarrow> json result) \<Rightarrow> json \<Rightarrow> bundle_info result" where
  "parse_bundle b64_json bundle =
     bindr (dict_get bundle ''publisher'' (JObj [])) (\<lambda>pub.
     bindr (dict_get bundle ''attestations'' (JArr [])) (\<lambda>atts.
     bindr (py_iter atts) (\<lambda>att_list.
     bindr (map_result (parse_attestation b64_json) att_list) (\<lambda>infos.
     Inr \<lparr> publisher = pub, attestations = infos \<rparr>))))"

definition parse_provenance_data :: "(string \<Rightarrow> json result) \<Rightarrow> json \<Rightarrow> provenance result" where
  "parse_provenance_data b64_json provenance_data =
     bindr (dict_get provenance_data ''version'' (JInt 1)) (\<lambda>v.
     bindr (dict_get provenance_data ''attestation_bundles'' (JArr [])) (\<lambda>bs.
     bindr (py_iter bs) (\<lambda>bundle_list.
     bindr (map_result (parse_bundle b64_json) bundle_list) (\<lambda>infos.
     Inr \<lparr> prov_version = v, bundles = infos \<rparr>))))"

section \<open>Gated verification runs\<close>

text \<open>The two records of process-wide state. A key of \<^verbatim>\<open>chainver_logs\<close> that was
  never assigned is \<open>None\<close>.\<close>

record auth_state =
  authenticated :: bool
  auth_url :: "string option"
  auth_error :: "string option"

record chainver_logs =
  normal_output :: "string option"
  verbose_output :: "string option"
  last_run :: "string option"
  verbose_last_run :: "string option"

text \<open>The environment of the two handlers: the sorted result of the glob for
  \<^verbatim>\<open>*.whl\<close>, the variable \<^verbatim>\<open>CHAINVER_PARENT_ORG\<close>, what running a command to its end
  gives (\<^verbatim>\<open>create_subprocess_exec\<close>, then \<^verbatim>\<open>communicate\<close>, under \<^verbatim>\<open>wait_for\<close> where the
  source has one), and \<^verbatim>\<open>json.loads\<close> on a string.\<close>

record run_env =
  wheel_glob :: "string list"
  parent_org :: string
  run_process :: "string list \<Rightarrow> completed result"
  json_loads :: "string \<Rightarrow> json result"

text \<open>The dictionaries the handlers answer with. An exception \<^verbatim>\<open>e\<close> is answered as
  \<^verbatim>\<open>{"error": str(e)}\<close>.\<close>

datatype body =
    ErrorBody string
  | ExceptionBody exn
  | RunFailedBody string
  | ResultsBody chainver_results
  | VerboseBody "string option" "string option"

text \<open>A handler's effect: the status and body of its response, the log state it
  leaves, and the commands it started, in order.\<close>

record effect =
  status :: nat
  response :: body
  logs_after :: chainver_logs
  started :: "string list list"

definition newlines :: string where
  "newlines = [CHR 0x0A, CHR 0x0A]"

text \<open>\<^verbatim>\<open>get_chainver_results\<close> from the point where the verifier process has completed:
  the \<^verbatim>\<open>date\<close> process, the two log assignments, the parse of the output. It gives the
  return value and the log state; each \<^verbatim>\<open>except Exception\<close> keeps the log assignments
  made before the exception.\<close>

definition record_and_parse ::
    "run_env \<Rightarrow> chainver_logs \<Rightarrow> completed \<Rightarrow> body \<times> chainver_logs" where
  "record_and_parse env logs process =
     (case run_process env [''date''] of
        Inl e \<Rightarrow> (ExceptionBody e, logs)
      | Inr date_process \<Rightarrow>
          (case bindr (decode (stdout process)) (\<lambda>out.
                bindr (decode (stderr process)) (\<lambda>err.
                Inr (out @ newlines @ err))) of
             Inl e \<Rightarrow> (ExceptionBody e, logs)
           | Inr normal \<Rightarrow>
               (let logs1 = logs\<lparr> normal_output := Some normal \<rparr> in
                case decode (stdout date_process) of
                  Inl e \<Rightarrow> (ExceptionBody e, logs1)
                | Inr date \<Rightarrow>
                    (let logs2 = logs1\<lparr> last_run := Some (py_strip date) \<rparr> in
                     if returncode process = 0 \<and> stdout process \<noteq> Text []
                     then (case bindr (decode (stdout process)) (\<lambda>out.
                                bindr (json_loads env out) parse_chainver_output) of
                             Inl e \<Rightarrow> (ExceptionBody e, logs2)
                           | Inr r \<Rightarrow> (ResultsBody r, logs2))
                     else (case decode (stderr process) of
                             Inl e \<Rightarrow> (ExceptionBody e, logs2)
                           | Inr err \<Rightarrow> (RunFailedBody err, logs2))))))"

text \<open>\<^verbatim>\<open>get_chainver_results\<close>: its return value, the log state, the commands started.\<close>

definition get_chainver_results ::
    "run_env \<Rightarrow> chainver_logs \<Rightarrow> body \<times> chainver_logs \<times> string list list" where
  "get_chainver_results env logs =
     (let wheel_files = wheel_glob env in
      if wheel_files = [] then (ErrorBody ''No wheel files found in /app/wheels/'', logs, [])
      else
        let cmd = [''chainver'', ''-o'', ''json'', ''--detailed'']
                  @ (if parent_org env \<noteq> [] then [''--parent'', parent_org env] else [])
                  @ wheel_files
        in case run_process env cmd of
             Inl e \<Rightarrow> (ExceptionBody e, logs, [cmd])
           | Inr process \<Rightarrow>
               (case record_and_parse env logs process of
                  (result, logs') \<Rightarrow> (result, logs', [cmd, [''date'']])))"

definition unauthorized :: body where
  "unauthorized = ErrorBody ''Not authenticated with Chainguard. Please authenticate first.''"

text \<open>\<^verbatim>\<open>chainver_api\<close>: the check of \<^verbatim>\<open>auth_state["authenticated"]\<close> comes first.\<close>

definition chainver_api :: "run_env \<Rightarrow> auth_state \<Rightarrow> chainver_logs \<Rightarrow> effect" where
  "chainver_api env auth logs =
     (if \<not> authenticated auth
      then \<lparr> status = 401, response = unauthorized, logs_after = logs, started = [] \<rparr>
      else (case get_chainver_results env logs of
              (results, logs', cmds) \<Rightarrow>
                \<lparr> status = 200, response = results, logs_after = logs', started = cmds \<rparr>))"

text \<open>\<^verbatim>\<open>chainver_verbose_api\<close> from the point where the verbose process has completed:
  status, body and log state.\<close>

definition record_verbose ::
    "run_env \<Rightarrow> chainver_logs \<Rightarrow> completed \<Rightarrow> nat \<times> body \<times> chainver_logs" where
  "record_verbose env logs process =
     (case run_process env [''date''] of
        Inl e \<Rightarrow> (500, ExceptionBody e, logs)
      | Inr date_process \<Rightarrow>
          (case bindr (decode (stdout process)) (\<lambda>out.
                bindr (decode (stderr process)) (\<lambda>err.
                Inr (out @ newlines @ err))) of
             Inl e \<Rightarrow> (500, ExceptionBody e, logs)
           | Inr verbose \<Rightarrow>
               (let logs1 = logs\<lparr> verbose_output := Some verbose \<rparr> in
                case decode (stdout date_process) of
                  Inl e \<Rightarrow> (500, ExceptionBody e, logs1)
                | Inr date \<Rightarrow>
                    (let logs2 = logs1\<lparr> verbose_last_run := Some (py_strip date) \<rparr>
                     in (200, VerboseBody (verbose_output logs2) (verbose_last_run logs2),
                         logs2)))))"

text \<open>\<^verbatim>\<open>chainver_verbose_api\<close>\<close>

definition chainver_verbose_api :: "run_env \<Rightarrow> auth_state \<Rightarrow> chainver_logs \<Rightarrow> effect" where
  "chainver_verbose_api env auth logs =
     (if \<not> authenticated auth
      then \<lparr> status = 401, response = unauthorized, logs_after = logs, started = [] \<rparr>
      else
        let wheel_files = wheel_glob env in
        if wheel_files = []
        then \<lparr> status = 404, response = ErrorBody ''No wheel files found'',
               logs_after = logs, started = [] \<rparr>
        else
          let verbose_cmd = [''chainver'', ''-v'', ''--detailed'']
                  @ (if parent_org env \<noteq> [] then [''--parent'', parent_org env] else [])
                  @ wheel_files
          in case run_process env verbose_cmd of
               Inl e \<Rightarrow> \<lparr> status = 500, response = ExceptionBody e, logs_after = logs,
                           started = [verbose_cmd] \<rparr>
             | Inr process \<Rightarrow>
                 (case record_verbose env logs process of
                    (code, result, logs') \<Rightarrow>
                      \<lparr> status = code, response = result, logs_after = logs',
                        started = [verbose_cmd, [''date'']] \<rparr>))"

section \<open>Views of the input and sample inputs\<close>

text \<open>The list that \<^verbatim>\<open>parse_chainver_output\<close> iterates over: the value under
  \<^verbatim>\<open>results\<close> when it is truthy, the value under \<^verbatim>\<open>nestedResults\<close> otherwise; and
  which of the two branches it takes.\<close>

definition per_artifact_shape :: "json \<Rightarrow> bool" where
  "per_artifact_shape d =
     (case dict_get d ''results'' (JArr []) of Inr res \<Rightarrow> py_truthy res | Inl e \<Rightarrow> False)"

definition selected_entries :: "json \<Rightarrow> json list" where
  "selected_entries d =
     (case bindr (dict_get d (if per_artifact_shape d then ''results'' else ''nestedResults'')
                   (JArr [])) py_iter of
        Inr es \<Rightarrow> es
      | Inl e \<Rightarrow> [])"

text \<open>A verifier output in the per-artifact shape: coverage 99, 100 (with a log index
  in the details), 101, and 100 as a float with a full log URL in the details.\<close>

definition sample_results :: json where
  "sample_results = JObj
     [(''artifactVerificationCoverage'', JInt 50),
      (''results'', JArr
        [JObj [(''artifact'', JStr ''/app/wheels/click-8.3.0-py3-none-any.whl''),
               (''artifactVerificationCoverage'', JInt 99),
               (''details'', JStr ''rekor.sigstore.dev logIndex=7'')],
         JObj [(''artifact'', JStr ''/app/wheels/flask-3.1.2-py3-none-any.whl''),
               (''artifactVerificationCoverage'', JInt 100),
               (''details'', JStr ''rekor.sigstore.dev logIndex: 42'')],
         JObj [(''artifact'', JStr ''/app/wheels/jinja2-3.1.6-py3-none-any.whl''),
               (''artifactVerificationCoverage'', JInt 101)],
         JObj [(''artifact'', JStr ''wheels/idna.whl''),
               (''artifactVerificationCoverage'', JFloat (Finite 100)),
               (''details'', JStr
                 ''see https://rekor.sigstore.dev/api/v1/log/entries/?logIndex=123.'')]])]"

definition sample_results_packages :: "package list" where
  "sample_results_packages =
     [\<lparr> name = JStr ''click'', version = ''8.3.0'', verified = False,
         details = JStr ''rekor.sigstore.dev logIndex=7'',
         verification_method = JStr ''none'', rekor_url = None \<rparr>,
      \<lparr> name = JStr ''flask'', version = ''3.1.2'', verified = True,
         details = JStr ''rekor.sigstore.dev logIndex: 42'',
         verification_method = JStr ''signature'',
         rekor_url = Some ''https://search.sigstore.dev/?logIndex=42'' \<rparr>,
      \<lparr> name = JStr ''jinja2'', version = ''3.1.6'', verified = False,
         details = JStr [],
         verification_method = JStr ''none'', rekor_url = None \<rparr>,
      \<lparr> name = JStr ''idna.whl'', version = [], verified = True,
         details = JStr ''see https://rekor.sigstore.dev/api/v1/log/entries/?logIndex=123.'',
         verification_method = JStr ''signature'',
         rekor_url = Some ''https://rekor.sigstore.dev/api/v1/log/entries/?logIndex=123'' \<rparr>]"

text \<open>A verifier output in the legacy nested shape.\<close>

definition sample_nested :: json where
  "sample_nested = JObj
     [(''overallVerificationCoverage'', JInt 50),
      (''nestedResults'', JArr
        [JObj [(''coordinates'', JStr ''flask==3.1.2''),
               (''path'', JStr ''site-packages/flask''),
               (''verificationCoverage'', JInt 100),
               (''verificationMethod'', JStr ''sigstore''),
               (''details'', JStr ''rekor.sigstore.dev logIndex: 42'')],
         JObj [(''coordinates'', JStr ''click''),
               (''path'', JStr ''site-packages/click''),
               (''verificationCoverage'', JInt 99)]])]"

definition sample_nested_packages :: "package list" where
  "sample_nested_packages =
     [\<lparr> name = JStr ''flask'', version = ''3.1.2'', verified = True,
         details = JStr ''rekor.sigstore.dev logIndex: 42'',
         verification_method = JStr ''sigstore'',
         rekor_url = Some ''https://search.sigstore.dev/?logIndex=42'' \<rparr>,
      \<lparr> name = JStr ''site-packages/click'', version = [], verified = False,
         details = JStr [],
         verification_method = JStr ''none'', rekor_url = None \<rparr>]"

text \<open>The value an entry has under a key, or the default: what \<^verbatim>\<open>entry.get(key, default)\<close>
  reads from a dictionary.\<close>

definition field :: "json \<Rightarrow> string \<Rightarrow> json \<Rightarrow> json" where
  "field e k dflt =
     (case e of
        JObj kvs \<Rightarrow> (case map_of kvs k of Some v \<Rightarrow> v | None \<Rightarrow> dflt)
      | _ \<Rightarrow> dflt)"

text \<open>Well-formed verifier output: a dictionary whose \<^verbatim>\<open>results\<close> and
  \<^verbatim>\<open>nestedResults\<close>, when present, are arrays of dictionaries in which the
  \<^verbatim>\<open>artifact\<close> path, the \<^verbatim>\<open>coordinates\<close> and the \<^verbatim>\<open>details\<close>, when present, are
  strings.\<close>

definition str_or_absent :: "json \<Rightarrow> string \<Rightarrow> bool" where
  "str_or_absent e k =
     (case e of
        JObj kvs \<Rightarrow> (case map_of kvs k of None \<Rightarrow> True | Some (JStr s) \<Rightarrow> True | Some _ \<Rightarrow> False)
      | _ \<Rightarrow> False)"

definition array_or_absent :: "json \<Rightarrow> string \<Rightarrow> (json \<Rightarrow> bool) \<Rightarrow> bool" where
  "array_or_absent d k ok =
     (case d of
        JObj kvs \<Rightarrow>
          (case map_of kvs k of None \<Rightarrow> True | Some (JArr es) \<Rightarrow> list_all ok es | Some _ \<Rightarrow> False)
      | _ \<Rightarrow> False)"

definition wf_artifact :: "json \<Rightarrow> bool" where
  "wf_artifact e = (str_or_absent e ''artifact'' \<and> str_or_absent e ''details'')"

definition wf_nested :: "json \<Rightarrow> bool" where
  "wf_nested e = (str_or_absent e ''coordinates'' \<and> str_or_absent e ''details'')"

definition wf_chainver_data :: "json \<Rightarrow> bool" where
  "wf_chainver_data d =
     (array_or_absent d ''results'' wf_artifact \<and> array_or_absent d ''nestedResults'' wf_nested)"

text \<open>The array under a key of the verifier output, empty when the key is absent.\<close>

definition array_field :: "json \<Rightarrow> string \<Rightarrow> json list" where
  "array_field d k = (case field d k (JArr []) of JArr es \<Rightarrow> es | _ \<Rightarrow> [])"

text \<open>A legacy output whose only entry has full coverage and reports the method
  \<^verbatim>\<open>none\<close>.\<close>

definition legacy_method_none :: json where
  "legacy_method_none = JObj
     [(''nestedResults'', JArr
        [JObj [(''coordinates'', JStr ''flask==3.1.2''),
               (''verificationCoverage'', JInt 100),
               (''verificationMethod'', JStr ''none'')]])]"

text \<open>A per-artifact output with an unverified entry whose details hold a full log
  URL, and a verified entry whose details hold a bare log index and no mention of the
  log service.\<close>

definition rekor_gated_sample :: json where
  "rekor_gated_sample = JObj
     [(''results'', JArr
        [JObj [(''artifact'', JStr ''click-8.3.0-py3-none-any.whl''),
               (''artifactVerificationCoverage'', JInt 0),
               (''details'', JStr
                 ''https://rekor.sigstore.dev/api/v1/log/entries/?logIndex=123'')],
         JObj [(''artifact'', JStr ''flask-3.1.2-py3-none-any.whl''),
               (''artifactVerificationCoverage'', JInt 100),
               (''details'', JStr ''logIndex: 42'')]])]"

text \<open>The log state at start-up, and an environment with two wheels in which the
  verifier runs and prints an empty per-artifact result.\<close>

definition initial_logs :: chainver_logs where
  "initial_logs = \<lparr> normal_output = None, verbose_output = Some [], last_run = None,
                     verbose_last_run = None \<rparr>"

definition sample_run_env :: run_env where
  "sample_run_env =
     \<lparr> wheel_glob = [''/app/wheels/click-8.3.0-py3-none-any.whl'',
                     ''/app/wheels/flask-3.1.2-py3-none-any.whl''],
       parent_org = ''example.org'',
       run_process = (\<lambda>cmd. if cmd = [''date'']
                            then Inr (Completed 0 (Text ''Wed Nov  4 2026'') (Text []))
                            else Inr (Completed 0 (Text ''{}'') (Text []))),
       json_loads = (\<lambda>s. if s = ''{}'' then Inr (JObj []) else Inl ValueError) \<rparr>"





text \<open>The list a loop of \<^verbatim>\<open>parse_provenance_data\<close> iterates over: the value under the
  key, by default the empty list.\<close>

definition iter_field :: "json \<Rightarrow> string \<Rightarrow> json list" where
  "iter_field d k =
     (case bindr (dict_get d k (JArr [])) py_iter of Inr xs \<Rightarrow> xs | Inl e \<Rightarrow> [])"

text \<open>The library functions on the two statements of the samples below: \<^verbatim>\<open>e30=\<close> is
  the base64 text of \<^verbatim>\<open>{}\<close>; \<^verbatim>\<open>!!!\<close> has no base64 character, so \<^verbatim>\<open>b64decode\<close>
  gives no bytes and \<^verbatim>\<open>json.loads\<close> raises \<^verbatim>\<open>JSONDecodeError\<close>, a \<^verbatim>\<open>ValueError\<close>. The
  function stands for the library on these two strings only.\<close>

definition sample_b64_json :: "string \<Rightarrow> json result" where
  "sample_b64_json s = (if s = ''e30='' then Inr (JObj []) else Inl ValueError)"

definition good_attestation :: json where
  "good_attestation = JObj
     [(''version'', JInt 1),
      (''envelope'', JObj [(''statement'', JStr ''e30=''), (''signature'', JStr ''c2ln'')])]"

definition bad_attestation :: json where
  "bad_attestation = JObj
     [(''version'', JInt 1),
      (''envelope'', JObj [(''statement'', JStr ''!!!''), (''signature'', JStr ''c2ln'')])]"

definition good_att_info :: att_info where
  "good_att_info =
     \<lparr> att_version = JInt 1,
       att_statement = Some \<lparr> subject = JArr [], build_type = JStr [],
                              external_parameters = JObj [], internal_parameters = JObj [],
                              resolved_dependencies = JArr [], builder = JObj [],
                              metadata = JObj [] \<rparr>,
       att_verification = None \<rparr>"

text \<open>A document with one bundle of a well-formed and a malformed attestation, and
  one with two well-formed attestations.\<close>

definition one_bad_document :: json where
  "one_bad_document = JObj
     [(''version'', JInt 1),
      (''attestation_bundles'', JArr
        [JObj [(''publisher'', JObj [(''kind'', JStr ''GitHub'')]),
               (''attestations'', JArr [good_attestation, bad_attestation])]])]"

definition all_good_document :: json where
  "all_good_document = JObj
     [(''version'', JInt 1),
      (''attestation_bundles'', JArr
        [JObj [(''publisher'', JObj [(''kind'', JStr ''GitHub'')]),
               (''attestations'', JArr [good_attestation, good_attestation])]])]"

section \<open>Properties of the model\<close>

subsection \<open>Exceptions and loops\<close>

lemma bindr_Inr_iff: "bindr m f = Inr y \<longleftrightarrow> (\<exists>x. m = Inr x \<and> f x = Inr y)"
  by (cases m) (simp_all add: bindr_def)

lemma bindr_Inr [simp]: "bindr (Inr x) f = f x"
  by (simp add: bindr_def)

lemma bindr_Inl [simp]: "bindr (Inl e) f = Inl e"
  by (simp add: bindr_def)

lemma py_len_iter: "py_len v = Inr n \<Longrightarrow> py_iter v = Inr es \<Longrightarrow> length es = n"
  by (cases v) auto

lemma entry_loop_Inr:
  "entry_loop body xs r0 = Inr r \<Longrightarrow>
     \<exists>ps. list_all2 (\<lambda>x p. body x = Inr p) xs ps \<and>
          r = r0\<lparr> verified_count := verified_count r0 + length (filter verified ps),
                  packages := packages r0 @ ps \<rparr>"
proof (induction xs arbitrary: r0)
  case Nil
  then show ?case by simp
next
  case (Cons x xs)
  define r1 where
    "r1 p = r0\<lparr> verified_count := verified_count r0 + (if verified p then 1 else 0),
                packages := packages r0 @ [p] \<rparr>" for p
  from Cons.prems obtain p where p: "body x = Inr p"
    and rest: "entry_loop body xs (r1 p) = Inr r"
    by (auto simp: bindr_Inr_iff r1_def)
  from Cons.IH [OF rest] obtain ps where ps: "list_all2 (\<lambda>x p. body x = Inr p) xs ps"
    and r: "r = (r1 p)\<lparr> verified_count := verified_count (r1 p) + length (filter verified ps),
                  packages := packages (r1 p) @ ps \<rparr>"
    by blast
  show ?case
    by (rule exI [of _ "p # ps"]) (use p ps r in \<open>simp add: r1_def\<close>)
qed

lemma entry_loop_total:
  "list_all2 (\<lambda>x p. body x = Inr p) xs ps \<Longrightarrow>
     entry_loop body xs r0 =
       Inr (r0\<lparr> verified_count := verified_count r0 + length (filter verified ps),
                 packages := packages r0 @ ps \<rparr>)"
  by (induction xs ps arbitrary: r0 rule: list_all2_induct) simp_all

subsection \<open>The result of the normalizer, entry by entry\<close>

lemma parse_chainver_output_Inr:
  assumes "parse_chainver_output d = Inr r"
  shows "list_all2 (\<lambda>x p. (if per_artifact_shape d then parse_artifact x else parse_nested x) = Inr p)
           (selected_entries d) (packages r) \<and>
         total_count r = length (selected_entries d) \<and>
         verified_count r = length (filter verified (packages r))"
proof -
  from assms obtain kvs where d: "d = JObj kvs"
    by (cases d) (simp_all add: parse_chainver_output_def)
  obtain res where res: "dict_get d ''results'' (JArr []) = Inr res"
    by (simp add: d)
  show ?thesis
  proof (cases "py_truthy res")
    case True
    with assms res obtain n es r0 where n: "py_len res = Inr n" and es: "py_iter res = Inr es"
      and loop: "entry_loop parse_artifact es r0 = Inr r"
      and r0: "verified_count r0 = 0" "packages r0 = []" "total_count r0 = n"
      by (auto simp: parse_chainver_output_def d bindr_Inr_iff)
    from entry_loop_Inr [OF loop] obtain ps where
      "list_all2 (\<lambda>x p. parse_artifact x = Inr p) es ps"
      "packages r = ps" "total_count r = n" "verified_count r = length (filter verified ps)"
      using r0 by auto
    moreover have "per_artifact_shape d" "selected_entries d = es"
      using res True es by (simp_all add: per_artifact_shape_def selected_entries_def)
    ultimately show ?thesis
      using py_len_iter [OF n es] by simp
  next
    case False
    with assms res obtain nres n es r0 where
      nres: "dict_get d ''nestedResults'' (JArr []) = Inr nres"
      and n: "py_len nres = Inr n" and es: "py_iter nres = Inr es"
      and loop: "entry_loop parse_nested es r0 = Inr r"
      and r0: "verified_count r0 = 0" "packages r0 = []" "total_count r0 = n"
      by (auto simp: parse_chainver_output_def d bindr_Inr_iff)
    from entry_loop_Inr [OF loop] obtain ps where
      "list_all2 (\<lambda>x p. parse_nested x = Inr p) es ps"
      "packages r = ps" "total_count r = n" "verified_count r = length (filter verified ps)"
      using r0 by auto
    moreover have "\<not> per_artifact_shape d" "selected_entries d = es"
      using res False nres es by (simp_all add: per_artifact_shape_def selected_entries_def)
    ultimately show ?thesis
      using py_len_iter [OF n es] by simp
  qed
qed


subsection \<open>One entry of the verifier output\<close>

lemma split_once_found:
  "sublist sep s \<Longrightarrow> sep \<noteq> [] \<Longrightarrow>
     \<exists>n v. split_once sep s = [n, v] \<and> s = n @ sep @ v \<and>
           (\<forall>k<length n. \<not> prefix sep (drop k s))"
proof (induction s)
  case Nil
  then show ?case by simp
next
  case (Cons c cs)
  show ?case
  proof (cases "prefix sep (c # cs)")
    case True
    have cut: "split_once sep (c # cs) = [[], drop (length sep) (c # cs)]"
      using True by simp
    have whole: "c # cs = [] @ sep @ drop (length sep) (c # cs)"
      using True by (auto simp: prefix_def)
    have "\<forall>k<length ([]::string). \<not> prefix sep (drop k (c # cs))"
      by simp
    with cut whole show ?thesis by blast
  next
    case False
    with Cons.prems have "sublist sep cs"
      by (simp add: sublist_Cons_right)
    from Cons.IH [OF this Cons.prems(2)] obtain n v where
      s: "split_once sep cs = [n, v]" and e: "cs = n @ sep @ v"
      and first: "\<forall>k<length n. \<not> prefix sep (drop k cs)"
      by blast
    have "\<forall>k<length (c # n). \<not> prefix sep (drop k (c # cs))"
    proof (intro allI impI)
      fix k assume "k < length (c # n)"
      then show "\<not> prefix sep (drop k (c # cs))"
        using False first by (cases k) auto
    qed
    with False s e show ?thesis by simp
  qed
qed

lemma split_once_absent: "\<not> sublist sep s \<Longrightarrow> sep \<noteq> [] \<Longrightarrow> split_once sep s = [s]"
proof (induction s)
  case Nil
  then show ?case by simp
next
  case (Cons c cs)
  then have "\<not> prefix sep (c # cs)" "\<not> sublist sep cs"
    by (simp_all add: sublist_Cons_right)
  with Cons show ?case by simp
qed

lemma py_eq_int_100: "py_eq_int v 100 \<longleftrightarrow> v = JInt 100 \<or> v = JFloat (Finite 100)"
proof (cases v)
  case (JFloat f)
  then show ?thesis by (cases f) auto
qed auto

lemma extract_rekor_url_verified: "extract_rekor_url is_verified d = Inr (Some u) \<Longrightarrow> is_verified"
  by (auto simp: extract_rekor_url_def split: if_splits)

lemma extract_rekor_url_str: "\<exists>u. extract_rekor_url is_verified (JStr s) = Inr u"
  by (auto simp: extract_rekor_url_def split: option.splits)

lemma dict_get_field: "dict_get e k d = Inr v \<Longrightarrow> v = field e k d"
  by (cases e) (auto simp: field_def)

lemma dict_get_obj: "dict_get (JObj kvs) k d = Inr (field (JObj kvs) k d)"
  by (simp add: field_def)

lemma parse_artifact_Inr:
  assumes "parse_artifact e = Inr p"
  shows "verified p = py_eq_int (field e ''artifactVerificationCoverage'' (JInt 0)) 100"
    and "details p = field e ''details'' (JStr [])"
    and "verification_method p = JStr (if verified p then ''signature'' else ''none'')"
    and "extract_rekor_url (verified p) (details p) = Inr (rekor_url p)"
    and "\<exists>f. path_name (field e ''artifact'' (JStr [])) = Inr f \<and>
             name p = JStr (fst (parse_filename f)) \<and> version p = snd (parse_filename f)"
proof -
  from assms obtain kvs where e: "e = JObj kvs"
    by (cases e) (simp_all add: parse_artifact_def)
  from assms obtain f u where
    f: "path_name (field e ''artifact'' (JStr [])) = Inr f"
    and u: "extract_rekor_url (py_eq_int (field e ''artifactVerificationCoverage'' (JInt 0)) 100)
              (field e ''details'' (JStr [])) = Inr u"
    and p: "p = \<lparr> name = JStr (fst (parse_filename f)),
           version = snd (parse_filename f),
           verified = py_eq_int (field e ''artifactVerificationCoverage'' (JInt 0)) 100,
           details = field e ''details'' (JStr []),
           verification_method = JStr (if py_eq_int (field e ''artifactVerificationCoverage'' (JInt 0)) 100 then ''signature'' else ''none''),
           rekor_url = u \<rparr>"
    unfolding parse_artifact_def e dict_get_obj
    by (auto simp: bindr_Inr_iff Let_def)
  show "verified p = py_eq_int (field e ''artifactVerificationCoverage'' (JInt 0)) 100"
    and "details p = field e ''details'' (JStr [])"
    and "verification_method p = JStr (if verified p then ''signature'' else ''none'')"
    and "extract_rekor_url (verified p) (details p) = Inr (rekor_url p)"
    and "\<exists>f. path_name (field e ''artifact'' (JStr [])) = Inr f \<and>
             name p = JStr (fst (parse_filename f)) \<and> version p = snd (parse_filename f)"
    using f u by (simp_all add: p)
qed

lemma parse_nested_Inr:
  assumes "parse_nested e = Inr p"
  shows "verified p = py_eq_int (field e ''verificationCoverage'' (JInt 0)) 100"
    and "details p = field e ''details'' (JStr [])"
    and "verification_method p = field e ''verificationMethod'' (JStr ''none'')"
    and "extract_rekor_url (verified p) (details p) = Inr (rekor_url p)"
    and "field e ''coordinates'' (JStr []) = JStr c \<Longrightarrow>
           (if sublist ''=='' c
            then \<exists>n v. c = n @ ''=='' @ v \<and> (\<forall>k<length n. \<not> prefix ''=='' (drop k c)) \<and>
                       name p = JStr n \<and> version p = v
            else name p = field e ''path'' (JStr ''Unknown'') \<and> version p = [])"
proof -
  from assms obtain kvs where e: "e = JObj kvs"
    by (cases e) (simp_all add: parse_nested_def)
  from assms obtain has_sep nm ver u where
    has_sep: "str_in ''=='' (field e ''coordinates'' (JStr [])) = Inr has_sep"
    and nv: "(if has_sep
            then (case field e ''coordinates'' (JStr []) of
                    JStr s \<Rightarrow>
                      (case split_once ''=='' s of
                         [n, v] \<Rightarrow> Inr (JStr n, v)
                       | _ \<Rightarrow> Inl ValueError)
                  | _ \<Rightarrow> Inl AttributeError)
            else Inr (field e ''path'' (JStr ''Unknown''), [])) = Inr (nm, ver)"
    and u: "extract_rekor_url (py_eq_int (field e ''verificationCoverage'' (JInt 0)) 100)
              (field e ''details'' (JStr [])) = Inr u"
    and p: "p = \<lparr> name = nm, version = ver,
           verified = py_eq_int (field e ''verificationCoverage'' (JInt 0)) 100,
           details = field e ''details'' (JStr []),
           verification_method = field e ''verificationMethod'' (JStr ''none''),
           rekor_url = u \<rparr>"
    unfolding parse_nested_def e dict_get_obj
    by (auto simp: bindr_Inr_iff Let_def cong: if_cong)
  show "verified p = py_eq_int (field e ''verificationCoverage'' (JInt 0)) 100"
    and "details p = field e ''details'' (JStr [])"
    and "verification_method p = field e ''verificationMethod'' (JStr ''none'')"
    and "extract_rekor_url (verified p) (details p) = Inr (rekor_url p)"
    using u by (simp_all add: p)
  show "(if sublist ''=='' c
            then \<exists>n v. c = n @ ''=='' @ v \<and> (\<forall>k<length n. \<not> prefix ''=='' (drop k c)) \<and>
                       name p = JStr n \<and> version p = v
            else name p = field e ''path'' (JStr ''Unknown'') \<and> version p = [])"
    if c: "field e ''coordinates'' (JStr []) = JStr c"
  proof (cases "sublist ''=='' c")
    case True
    from split_once_found [OF True] obtain n v where
      "split_once ''=='' c = [n, v]" "c = n @ ''=='' @ v"
      "\<forall>k<length n. \<not> prefix ''=='' (drop k c)"
      by auto
    moreover from has_sep c True have "has_sep" by simp
    ultimately show ?thesis
      using nv c True by (auto simp: p)
  next
    case False
    with has_sep c have "\<not> has_sep" by simp
    with nv False show ?thesis by (simp add: p)
  qed
qed

lemma str_or_absent_field:
  "str_or_absent e k \<Longrightarrow> \<exists>kvs. e = JObj kvs \<and> (\<exists>s. field e k (JStr d) = JStr s)"
proof -
  assume ok: "str_or_absent e k"
  then obtain kvs where e: "e = JObj kvs"
    by (cases e) (simp_all add: str_or_absent_def)
  show ?thesis
  proof (cases "map_of kvs k")
    case None
    with e show ?thesis by (simp add: field_def)
  next
    case (Some v)
    with ok e obtain s where "v = JStr s"
      by (cases v) (simp_all add: str_or_absent_def)
    with e Some show ?thesis by (simp add: field_def)
  qed
qed

lemma parse_artifact_total:
  assumes "wf_artifact e"
  shows "\<exists>p. parse_artifact e = Inr p"
proof -
  from assms obtain kvs a s where e: "e = JObj kvs"
    and a: "field e ''artifact'' (JStr []) = JStr a"
    and s: "field e ''details'' (JStr []) = JStr s"
    unfolding wf_artifact_def by (metis str_or_absent_field)
  obtain u where "extract_rekor_url (py_eq_int (field e ''artifactVerificationCoverage'' (JInt 0)) 100)
        (JStr s) = Inr u"
    using extract_rekor_url_str by blast
  then show ?thesis
    unfolding parse_artifact_def e dict_get_obj
    using a s by (simp add: e Let_def)
qed

lemma parse_nested_total:
  assumes "wf_nested e"
  shows "\<exists>p. parse_nested e = Inr p"
proof -
  from assms obtain kvs c s where e: "e = JObj kvs"
    and c: "field e ''coordinates'' (JStr []) = JStr c"
    and s: "field e ''details'' (JStr []) = JStr s"
    unfolding wf_nested_def by (metis str_or_absent_field)
  obtain u where u: "extract_rekor_url (py_eq_int (field e ''verificationCoverage'' (JInt 0)) 100)
        (JStr s) = Inr u"
    using extract_rekor_url_str by blast
  show ?thesis
  proof (cases "sublist ''=='' c")
    case True
    from split_once_found [OF True] obtain n v where "split_once ''=='' c = [n, v]"
      by auto
    with True u show ?thesis
      unfolding parse_nested_def e dict_get_obj
      using c s by (simp add: e Let_def)
  next
    case False
    with u show ?thesis
      unfolding parse_nested_def e dict_get_obj
      using c s by (simp add: e Let_def)
  qed
qed


subsection \<open>Well-formed verifier output\<close>

lemma dict_get_obj': "d = JObj kvs \<Longrightarrow> dict_get d k dflt = Inr (field d k dflt)"
  by (simp add: field_def)

lemma array_or_absent_cases:
  assumes "array_or_absent d k ok"
  shows "(\<exists>kvs. d = JObj kvs) \<and> field d k (JArr []) = JArr (array_field d k) \<and>
         list_all ok (array_field d k)"
proof -
  from assms obtain kvs where d: "d = JObj kvs"
    by (cases d) (simp_all add: array_or_absent_def)
  show ?thesis
  proof (cases "map_of kvs k")
    case None
    with d show ?thesis
      by (simp add: field_def array_field_def)
  next
    case (Some v)
    with assms d obtain es where "v = JArr es" "list_all ok es"
      by (cases v) (simp_all add: array_or_absent_def)
    with d Some show ?thesis
      by (simp add: field_def array_field_def)
  qed
qed

lemma list_all_total:
  "list_all (\<lambda>x. \<exists>p. body x = Inr p) xs \<Longrightarrow> \<exists>ps. list_all2 (\<lambda>x p. body x = Inr p) xs ps"
proof (induction xs)
  case Nil
  then show ?case by simp
next
  case (Cons x xs)
  then obtain p ps where "body x = Inr p" "list_all2 (\<lambda>x p. body x = Inr p) xs ps"
    by auto
  then have "list_all2 (\<lambda>x p. body x = Inr p) (x # xs) (p # ps)" by simp
  then show ?case by blast
qed

lemma wf_selected_entries:
  assumes "wf_chainver_data d"
  shows "per_artifact_shape d \<longleftrightarrow> array_field d ''results'' \<noteq> []"
    and "selected_entries d =
           (if array_field d ''results'' \<noteq> [] then array_field d ''results''
            else array_field d ''nestedResults'')"
proof -
  from assms have r: "array_or_absent d ''results'' wf_artifact"
    and n: "array_or_absent d ''nestedResults'' wf_nested"
    by (simp_all add: wf_chainver_data_def)
  from array_or_absent_cases [OF r] obtain kvs where d: "d = JObj kvs"
    and res: "field d ''results'' (JArr []) = JArr (array_field d ''results'')"
    by blast
  from array_or_absent_cases [OF n]
  have nres: "field d ''nestedResults'' (JArr []) = JArr (array_field d ''nestedResults'')"
    by blast
  show shape: "per_artifact_shape d \<longleftrightarrow> array_field d ''results'' \<noteq> []"
    using res by (simp add: per_artifact_shape_def dict_get_obj' [OF d])
  show "selected_entries d =
           (if array_field d ''results'' \<noteq> [] then array_field d ''results''
            else array_field d ''nestedResults'')"
    using res nres shape by (simp add: selected_entries_def dict_get_obj' [OF d])
qed

lemma parse_chainver_output_total:
  assumes "wf_chainver_data d"
  shows "\<exists>r. parse_chainver_output d = Inr r"
proof -
  from assms have r: "array_or_absent d ''results'' wf_artifact"
    and n: "array_or_absent d ''nestedResults'' wf_nested"
    by (simp_all add: wf_chainver_data_def)
  from array_or_absent_cases [OF r] obtain kvs where d: "d = JObj kvs"
    and res: "field d ''results'' (JArr []) = JArr (array_field d ''results'')"
    and wf_res: "list_all wf_artifact (array_field d ''results'')"
    by blast
  from array_or_absent_cases [OF n]
  have nres: "field d ''nestedResults'' (JArr []) = JArr (array_field d ''nestedResults'')"
    and wf_nres: "list_all wf_nested (array_field d ''nestedResults'')"
    by simp_all
  from wf_res have "list_all (\<lambda>x. \<exists>p. parse_artifact x = Inr p) (array_field d ''results'')"
    by (auto simp: list_all_iff parse_artifact_total)
  from list_all_total [OF this] obtain ps where
    ps: "list_all2 (\<lambda>x p. parse_artifact x = Inr p) (array_field d ''results'') ps"
    by blast
  from wf_nres have "list_all (\<lambda>x. \<exists>p. parse_nested x = Inr p) (array_field d ''nestedResults'')"
    by (auto simp: list_all_iff parse_nested_total)
  from list_all_total [OF this] obtain qs where
    qs: "list_all2 (\<lambda>x p. parse_nested x = Inr p) (array_field d ''nestedResults'') qs"
    by blast
  show ?thesis
    unfolding parse_chainver_output_def dict_get_obj' [OF d]
    using res nres entry_loop_total [OF ps] entry_loop_total [OF qs]
    by (simp add: Let_def)
qed


lemma list_all2_setD:
  "list_all2 P xs ys \<Longrightarrow> y \<in> set ys \<Longrightarrow> \<exists>x\<in>set xs. P x y"
  by (induction rule: list_all2_induct) auto

subsection \<open>What the two patterns match\<close>

lemma re_search_Some: "re_search m s = Some r \<Longrightarrow> \<exists>t. suffix t s \<and> m t = Some r"
proof (induction s)
  case Nil
  then show ?case by auto
next
  case (Cons c cs)
  show ?case
  proof (cases "m (c # cs)")
    case None
    with Cons obtain t where "suffix t cs" "m t = Some r" by auto
    then show ?thesis by (auto simp: suffix_Cons)
  next
    case (Some a)
    with Cons.prems have "m (c # cs) = Some r" by simp
    then show ?thesis by blast
  qed
qed

lemma re_search_None: "re_search m s = None \<longleftrightarrow> (\<forall>t. suffix t s \<longrightarrow> m t = None)"
  by (induction s) (auto simp: suffix_Cons split: option.splits)

lemma sublist_suffix_prefix: "suffix t s \<Longrightarrow> prefix u t \<Longrightarrow> sublist u s"
  by (auto simp: sublist_altdef')

lemma digit_not_sep: "is_digit c \<Longrightarrow> \<not> is_index_sep c"
  by (auto simp: is_digit_def is_index_sep_def is_space_def)

lemma rekor_match_at_Some:
  assumes "rekor_match_at t = Some u"
  shows "\<exists>ds. ds \<noteq> [] \<and> list_all is_digit ds \<and> u = rekor_prefix @ ds \<and> prefix u t"
proof -
  let ?ds = "takeWhile is_digit (drop (length rekor_prefix) t)"
  from assms have p: "prefix rekor_prefix t" and ne: "?ds \<noteq> []" and u: "u = rekor_prefix @ ?ds"
    by (auto simp: rekor_match_at_def Let_def split: if_splits)
  from p have t: "t = rekor_prefix @ drop (length rekor_prefix) t"
    by (auto simp: prefix_def)
  have "prefix ?ds (drop (length rekor_prefix) t)"
    by (rule takeWhile_is_prefix)
  then have "prefix (rekor_prefix @ ?ds) (rekor_prefix @ drop (length rekor_prefix) t)"
    by simp
  with t have "prefix u t" by (simp add: u)
  moreover have "list_all is_digit ?ds"
    by (simp add: list_all_iff) (meson set_takeWhileD)
  ultimately show ?thesis using ne u by blast
qed

lemma takeWhile_Nil_iff: "takeWhile P xs = [] \<longleftrightarrow> (\<forall>x ys. xs = x # ys \<longrightarrow> \<not> P x)"
  by (cases xs) auto

lemma rekor_match_at_None:
  "rekor_match_at t = None \<longleftrightarrow> \<not> (\<exists>c. is_digit c \<and> prefix (rekor_prefix @ [c]) t)"
proof
  assume none: "rekor_match_at t = None"
  show "\<not> (\<exists>c. is_digit c \<and> prefix (rekor_prefix @ [c]) t)"
  proof
    assume "\<exists>c. is_digit c \<and> prefix (rekor_prefix @ [c]) t"
    then obtain c zs where c: "is_digit c" and t: "t = rekor_prefix @ c # zs"
      by (auto simp: prefix_def)
    then have "rekor_match_at t \<noteq> None"
      by (simp add: rekor_match_at_def)
    with none show False by simp
  qed
next
  assume no: "\<not> (\<exists>c. is_digit c \<and> prefix (rekor_prefix @ [c]) t)"
  show "rekor_match_at t = None"
  proof (cases "prefix rekor_prefix t")
    case False
    then show ?thesis by (simp add: rekor_match_at_def)
  next
    case True
    then obtain zs where t: "t = rekor_prefix @ zs" by (auto simp: prefix_def)
    with no have "takeWhile is_digit zs = []"
      by (cases zs) auto
    with t show ?thesis by (simp add: rekor_match_at_def)
  qed
qed

lemma index_match_at_Some:
  assumes "index_match_at t = Some ds"
  shows "ds \<noteq> [] \<and> list_all is_digit ds \<and>
         (\<exists>seps. seps \<noteq> [] \<and> list_all is_index_sep seps \<and> prefix (''logIndex'' @ seps @ ds) t)"
proof -
  define rest where "rest = drop (length ''logIndex'') t"
  define seps where "seps = takeWhile is_index_sep rest"
  from assms have p: "prefix ''logIndex'' t" and ne: "seps \<noteq> []" "ds \<noteq> []"
    and ds: "ds = takeWhile is_digit (dropWhile is_index_sep rest)"
    by (auto simp: index_match_at_def Let_def rest_def seps_def split: if_splits)
  from p have t: "t = ''logIndex'' @ rest"
    by (auto simp: prefix_def rest_def)
  have "prefix ds (dropWhile is_index_sep rest)"
    unfolding ds by (rule takeWhile_is_prefix)
  then have "prefix (seps @ ds) (seps @ dropWhile is_index_sep rest)"
    by simp
  then have "prefix (seps @ ds) rest"
    by (simp add: seps_def)
  then have "prefix (''logIndex'' @ seps @ ds) (''logIndex'' @ rest)"
    by (simp only: same_prefix_prefix)
  with t have "prefix (''logIndex'' @ seps @ ds) t" by simp
  moreover have "list_all is_digit ds"
    unfolding ds by (simp add: list_all_iff) (meson set_takeWhileD)
  moreover have "list_all is_index_sep seps"
    unfolding seps_def by (simp add: list_all_iff) (meson set_takeWhileD)
  ultimately show ?thesis using ne by blast
qed

lemma index_match_at_None:
  "index_match_at t = None \<longleftrightarrow>
     \<not> (\<exists>seps c. seps \<noteq> [] \<and> list_all is_index_sep seps \<and> is_digit c \<and>
                 prefix (''logIndex'' @ seps @ [c]) t)"
proof
  assume none: "index_match_at t = None"
  show "\<not> (\<exists>seps c. seps \<noteq> [] \<and> list_all is_index_sep seps \<and> is_digit c \<and>
                 prefix (''logIndex'' @ seps @ [c]) t)"
  proof
    assume "\<exists>seps c. seps \<noteq> [] \<and> list_all is_index_sep seps \<and> is_digit c \<and>
                 prefix (''logIndex'' @ seps @ [c]) t"
    then obtain seps c zs where seps: "seps \<noteq> []" "list_all is_index_sep seps"
      and c: "is_digit c" and t: "t = ''logIndex'' @ seps @ c # zs"
      by (auto simp: prefix_def)
    have rest: "drop (length ''logIndex'') t = seps @ c # zs"
      by (simp add: t)
    have tw: "takeWhile is_index_sep (seps @ c # zs) = seps"
      using seps(2) digit_not_sep [OF c] by (simp add: list_all_iff takeWhile_append2)
    have dw: "dropWhile is_index_sep (seps @ c # zs) = c # zs"
      using seps(2) digit_not_sep [OF c] by (simp add: list_all_iff dropWhile_append2)
    have "index_match_at t \<noteq> None"
      unfolding index_match_at_def
      using seps(1) c by (simp add: rest tw dw t Let_def)
    with none show False by simp
  qed
next
  assume no: "\<not> (\<exists>seps c. seps \<noteq> [] \<and> list_all is_index_sep seps \<and> is_digit c \<and>
                 prefix (''logIndex'' @ seps @ [c]) t)"
  show "index_match_at t = None"
  proof (rule ccontr)
    assume "index_match_at t \<noteq> None"
    then obtain ds where "index_match_at t = Some ds" by auto
    from index_match_at_Some [OF this] obtain seps where
      "ds \<noteq> []" "list_all is_digit ds" "seps \<noteq> []" "list_all is_index_sep seps"
      "prefix (''logIndex'' @ seps @ ds) t"
      by blast
    moreover from \<open>ds \<noteq> []\<close> obtain c ds' where "ds = c # ds'" by (cases ds) auto
    ultimately have "seps \<noteq> [] \<and> list_all is_index_sep seps \<and> is_digit c \<and>
                 prefix (''logIndex'' @ seps @ [c]) t"
      by (auto simp: prefix_def)
    with no show False by blast
  qed
qed


lemma extract_rekor_url_str_eq:
  "extract_rekor_url is_verified (JStr s) =
     Inr (if is_verified \<and> sublist ''rekor.sigstore.dev'' s
          then (case re_search rekor_match_at s of
                  Some u \<Rightarrow> Some u
                | None \<Rightarrow> map_option ((@) ''https://search.sigstore.dev/?logIndex='')
                            (re_search index_match_at s))
          else None)"
  by (simp add: extract_rekor_url_def split: option.splits)


subsection \<open>The handlers once authenticated\<close>

lemma get_chainver_results_starts:
  assumes "wheel_glob env \<noteq> []"
  shows "snd (snd (get_chainver_results env logs)) \<noteq> []"
  using assms unfolding get_chainver_results_def Let_def
  by (simp split: sum.split prod.split)

lemma authenticated_run_starts_process:
  assumes "authenticated auth" and "wheel_glob env \<noteq> []"
  shows "started (chainver_api env auth logs) \<noteq> []"
    and "started (chainver_verbose_api env auth logs) \<noteq> []"
proof -
  show "started (chainver_api env auth logs) \<noteq> []"
    using assms(1) get_chainver_results_starts [OF assms(2), of logs]
    by (auto simp: chainver_api_def split: prod.split)
  show "started (chainver_verbose_api env auth logs) \<noteq> []"
    using assms unfolding chainver_verbose_api_def Let_def
    by (simp split: sum.split prod.split)
qed


subsection \<open>Stripping a line\<close>



subsection \<open>The attestation decoder, item by item\<close>

lemma map_result_Inr: "map_result f xs = Inr ys \<longleftrightarrow> list_all2 (\<lambda>x y. f x = Inr y) xs ys"
proof (induction xs arbitrary: ys)
  case Nil
  then show ?case by auto
next
  case (Cons x xs)
  show ?case
    by (cases ys) (auto simp: bindr_Inr_iff Cons.IH)
qed

lemma map_result_Inl:
  assumes "x \<in> set xs" and "f x = Inl e"
  shows "\<exists>e'. map_result f xs = Inl e'"
proof (cases "map_result f xs")
  case (Inl e')
  then show ?thesis by blast
next
  case (Inr ys)
  then have "list_all2 (\<lambda>x y. f x = Inr y) xs ys"
    by (simp add: map_result_Inr)
  with assms(1) obtain y where "f x = Inr y"
    by (auto simp: list_all2_conv_all_nth in_set_conv_nth)
  with assms(2) show ?thesis by simp
qed

lemma iter_field_nonempty:
  assumes "x \<in> set (iter_field d k)"
  shows "\<exists>v. dict_get d k (JArr []) = Inr v \<and> py_iter v = Inr (iter_field d k)"
  using assms
  by (cases "dict_get d k (JArr [])"; cases "bindr (dict_get d k (JArr [])) py_iter")
     (auto simp: iter_field_def)

lemma iter_field_Inr:
  "dict_get d k (JArr []) = Inr v \<Longrightarrow> py_iter v = Inr xs \<Longrightarrow> iter_field d k = xs"
  by (simp add: iter_field_def)

lemma bad_statement_fails:
  assumes "field a ''envelope'' (JObj []) = JObj env"
    and "map_of env ''statement'' = Some (JStr s)" and "b64_json s = Inl e"
  shows "parse_attestation b64_json a = Inl e"
proof -
  from assms(1,2) obtain kvs where a: "a = JObj kvs"
    by (cases a) (auto simp: field_def)
  from assms(2) have "''statement'' \<in> set (map fst env)"
    by (metis map_of_eq_None_iff option.distinct(1) set_map)
  with assms have "parse_statement b64_json (JObj env) = Inl e"
    by (simp add: parse_statement_def decode_statement_def)
  with assms(1) show ?thesis
    unfolding parse_attestation_def dict_get_obj' [OF a] by simp
qed

lemma bad_attestation_fails_bundle:
  assumes "a \<in> set (iter_field b ''attestations'')" and "parse_attestation b64_json a = Inl e"
  shows "\<exists>e'. parse_bundle b64_json b = Inl e'"
proof -
  from iter_field_nonempty [OF assms(1)] obtain v where
    v: "dict_get b ''attestations'' (JArr []) = Inr v"
    and it: "py_iter v = Inr (iter_field b ''attestations'')"
    by blast
  from v obtain kvs where b: "b = JObj kvs"
    by (cases b) auto
  from map_result_Inl [of a _ "parse_attestation b64_json", OF assms] obtain e' where
    "map_result (parse_attestation b64_json) (iter_field b ''attestations'') = Inl e'"
    by blast
  with v it show ?thesis
    unfolding parse_bundle_def by (simp add: b)
qed

lemma bad_bundle_fails_document:
  assumes "b \<in> set (iter_field doc ''attestation_bundles'')" and "parse_bundle b64_json b = Inl e"
  shows "\<exists>e'. parse_provenance_data b64_json doc = Inl e'"
proof -
  from iter_field_nonempty [OF assms(1)] obtain v where
    v: "dict_get doc ''attestation_bundles'' (JArr []) = Inr v"
    and it: "py_iter v = Inr (iter_field doc ''attestation_bundles'')"
    by blast
  from v obtain kvs where d: "doc = JObj kvs"
    by (cases doc) auto
  from map_result_Inl [of b _ "parse_bundle b64_json", OF assms] obtain e' where
    "map_result (parse_bundle b64_json) (iter_field doc ''attestation_bundles'') = Inl e'"
    by blast
  with v it show ?thesis
    unfolding parse_provenance_data_def by (simp add: d)
qed

lemma parse_bundle_Inr:
  assumes "parse_bundle b64_json b = Inr bi"
  shows "publisher bi = field b ''publisher'' (JObj []) \<and>
         list_all2 (\<lambda>a ai. parse_attestation b64_json a = Inr ai)
           (iter_field b ''attestations'') (attestations bi)"
proof -
  from assms obtain kvs where b: "b = JObj kvs"
    by (cases b) (simp_all add: parse_bundle_def)
  from assms obtain xs infos where
    "py_iter (field b ''attestations'' (JArr [])) = Inr xs"
    "map_result (parse_attestation b64_json) xs = Inr infos"
    "bi = \<lparr> publisher = field b ''publisher'' (JObj []), attestations = infos \<rparr>"
    unfolding parse_bundle_def dict_get_obj' [OF b] by (auto simp: bindr_Inr_iff)
  then show ?thesis
    by (simp add: iter_field_def dict_get_obj' [OF b] map_result_Inr)
qed

lemma parse_provenance_data_Inr:
  assumes "parse_provenance_data b64_json doc = Inr r"
  shows "list_all2 (\<lambda>b bi. parse_bundle b64_json b = Inr bi)
           (iter_field doc ''attestation_bundles'') (bundles r)"
proof -
  from assms obtain kvs where d: "doc = JObj kvs"
    by (cases doc) (simp_all add: parse_provenance_data_def)
  from assms obtain xs infos where
    "py_iter (field doc ''attestation_bundles'' (JArr [])) = Inr xs"
    "map_result (parse_bundle b64_json) xs = Inr infos"
    "r = \<lparr> prov_version = field doc ''version'' (JInt 1), bundles = infos \<rparr>"
    unfolding parse_provenance_data_def dict_get_obj' [OF d] by (auto simp: bindr_Inr_iff)
  then show ?thesis
    by (simp add: iter_field_def dict_get_obj' [OF d] map_result_Inr)
qed

lemmas provenance_defs =
  parse_provenance_data_def parse_bundle_def parse_attestation_def parse_statement_def
  parse_verification_def decode_statement_def sample_b64_json_def good_attestation_def
  bad_attestation_def good_att_info_def

subsection \<open>The sample inputs, evaluated\<close>

lemmas regex_defs =
  rekor_match_at_def index_match_at_def rekor_prefix_def is_digit_def is_index_sep_def
  is_space_def

lemmas normalizer_defs =
  parse_chainver_output_def parse_artifact_def parse_nested_def extract_rekor_url_def
  parse_filename_def suffix_to_prefix sublist_code

lemma sample_results_value:
  "parse_chainver_output sample_results =
     Inr \<lparr> verified_count = 2, total_count = 4, packages = sample_results_packages,
           overall_coverage = JInt 50, artifact_coverage = JInt 50,
           results_details = JStr [] \<rparr>"
  by (simp add: sample_results_def sample_results_packages_def normalizer_defs regex_defs)

lemma sample_nested_value:
  "parse_chainver_output sample_nested =
     Inr \<lparr> verified_count = 1, total_count = 2, packages = sample_nested_packages,
           overall_coverage = JInt 50, artifact_coverage = JInt 0,
           results_details = JStr [] \<rparr>"
  by (simp add: sample_nested_def sample_nested_packages_def normalizer_defs regex_defs)

section \<open>The claims\<close>

text \<open>
  C1. For every well-formed verifier output the normalizer returns, with exactly one
  record for each entry of the array it reads (\<^verbatim>\<open>results\<close> when that is non-empty,
  \<^verbatim>\<open>nestedResults\<close> otherwise, so an empty array gives no record and no error), and a
  record is verified exactly when the coverage of its entry equals 100, as the integer
  or as the float of that value.
\<close>

theorem normalizer_one_record_per_entry:
  assumes "wf_chainver_data d"
  shows "\<exists>r. parse_chainver_output d = Inr r \<and>
           length (packages r) =
             length (if array_field d ''results'' \<noteq> [] then array_field d ''results''
                     else array_field d ''nestedResults'') \<and>
           list_all2
             (\<lambda>e p. verified p \<longleftrightarrow>
                field e (if array_field d ''results'' \<noteq> [] then ''artifactVerificationCoverage''
                         else ''verificationCoverage'') (JInt 0)
                  \<in> {JInt 100, JFloat (Finite 100)})
             (if array_field d ''results'' \<noteq> [] then array_field d ''results''
              else array_field d ''nestedResults'')
             (packages r)"
proof -
  from parse_chainver_output_total [OF assms] obtain r where r: "parse_chainver_output d = Inr r"
    by blast
  let ?es = "if array_field d ''results'' \<noteq> [] then array_field d ''results''
             else array_field d ''nestedResults''"
  from parse_chainver_output_Inr [OF r] wf_selected_entries [OF assms]
  have each: "list_all2
      (\<lambda>x p. (if array_field d ''results'' \<noteq> [] then parse_artifact x else parse_nested x) = Inr p)
      ?es (packages r)"
    by simp
  have "list_all2
             (\<lambda>e p. verified p \<longleftrightarrow>
                field e (if array_field d ''results'' \<noteq> [] then ''artifactVerificationCoverage''
                         else ''verificationCoverage'') (JInt 0)
                  \<in> {JInt 100, JFloat (Finite 100)}) ?es (packages r)"
    using each
    by (rule list_all2_mono)
       (auto simp: parse_artifact_Inr(1) parse_nested_Inr(1) py_eq_int_100 split: if_splits)
  with r each show ?thesis
    by (auto dest: list_all2_lengthD)
qed

theorem normalizer_one_record_per_entry_witness:
  "wf_chainver_data sample_results \<and>
   map (\<lambda>e. field e ''artifactVerificationCoverage'' (JInt 0))
     (array_field sample_results ''results'') =
     [JInt 99, JInt 100, JInt 101, JFloat (Finite 100)] \<and>
   (\<exists>r. parse_chainver_output sample_results = Inr r \<and>
        length (packages r) = 4 \<and>
        map verified (packages r) = [False, True, False, True]) \<and>
   parse_chainver_output (JObj [(''results'', JArr [])]) =
     Inr \<lparr> verified_count = 0, total_count = 0, packages = [],
           overall_coverage = JInt 0, artifact_coverage = JInt 0,
           results_details = JStr [] \<rparr>"
proof -
  have wf: "wf_chainver_data sample_results"
    by (simp add: wf_chainver_data_def array_or_absent_def wf_artifact_def wf_nested_def
          str_or_absent_def sample_results_def)
  have cov: "map (\<lambda>e. field e ''artifactVerificationCoverage'' (JInt 0))
     (array_field sample_results ''results'') =
     [JInt 99, JInt 100, JInt 101, JFloat (Finite 100)]"
    by (simp add: array_field_def field_def sample_results_def)
  have empty: "parse_chainver_output (JObj [(''results'', JArr [])]) =
     Inr \<lparr> verified_count = 0, total_count = 0, packages = [],
           overall_coverage = JInt 0, artifact_coverage = JInt 0,
           results_details = JStr [] \<rparr>"
    by (simp add: parse_chainver_output_def)
  from normalizer_one_record_per_entry [OF wf] sample_results_value
  show ?thesis
    using wf cov empty by (simp add: sample_results_packages_def)
qed

text \<open>
  C2, as stated, fails: nothing in \<^verbatim>\<open>parse_provenance_data\<close> catches the exception of
  a statement that does not decode. With one well-formed and one malformed attestation
  in a bundle the whole call raises, although the well-formed attestation decodes on
  its own; no attestation is returned and there is no count of skipped items.
\<close>

theorem one_bad_attestation_counterexample:
  "parse_attestation sample_b64_json good_attestation = Inr good_att_info \<and>
   parse_attestation sample_b64_json bad_attestation = Inl ValueError \<and>
   parse_provenance_data sample_b64_json one_bad_document = Inl ValueError"
  by (simp add: provenance_defs one_bad_document_def)

text \<open>
  C2, amended. Whatever the library decoder does, an attestation whose envelope
  statement fails to decode (malformed base64 or malformed inner JSON) makes
  \<^verbatim>\<open>parse_provenance_data\<close> raise for the whole document: no sibling is returned and
  nothing is counted as skipped. When it returns, every attestation of every bundle
  has decoded, and each bundle of the result has one record for each of its
  attestations, in order.
\<close>

theorem parse_provenance_data_all_or_nothing:
  "(\<forall>b a env s e.
      b \<in> set (iter_field doc ''attestation_bundles'') \<and>
      a \<in> set (iter_field b ''attestations'') \<and>
      field a ''envelope'' (JObj []) = JObj env \<and>
      map_of env ''statement'' = Some (JStr s) \<and>
      b64_json s = Inl e
      \<longrightarrow> (\<exists>e'. parse_provenance_data b64_json doc = Inl e')) \<and>
   (\<forall>r. parse_provenance_data b64_json doc = Inr r \<longrightarrow>
      list_all2
        (\<lambda>b bi. publisher bi = field b ''publisher'' (JObj []) \<and>
           list_all2 (\<lambda>a ai. parse_attestation b64_json a = Inr ai)
             (iter_field b ''attestations'') (attestations bi))
        (iter_field doc ''attestation_bundles'') (bundles r))"
proof (intro conjI allI impI)
  fix b a env s e
  assume h: "b \<in> set (iter_field doc ''attestation_bundles'') \<and>
      a \<in> set (iter_field b ''attestations'') \<and>
      field a ''envelope'' (JObj []) = JObj env \<and>
      map_of env ''statement'' = Some (JStr s) \<and>
      b64_json s = Inl e"
  then have "parse_attestation b64_json a = Inl e"
    by (blast intro: bad_statement_fails)
  with h obtain e1 where "parse_bundle b64_json b = Inl e1"
    by (blast dest: bad_attestation_fails_bundle)
  with h show "\<exists>e'. parse_provenance_data b64_json doc = Inl e'"
    by (blast dest: bad_bundle_fails_document)
next
  fix r
  assume "parse_provenance_data b64_json doc = Inr r"
  from parse_provenance_data_Inr [OF this]
  show "list_all2
        (\<lambda>b bi. publisher bi = field b ''publisher'' (JObj []) \<and>
           list_all2 (\<lambda>a ai. parse_attestation b64_json a = Inr ai)
             (iter_field b ''attestations'') (attestations bi))
        (iter_field doc ''attestation_bundles'') (bundles r)"
    by (rule list_all2_mono) (rule parse_bundle_Inr)
qed

theorem parse_provenance_data_all_or_nothing_witness:
  "(\<exists>e'. parse_provenance_data sample_b64_json one_bad_document = Inl e') \<and>
   parse_provenance_data sample_b64_json all_good_document =
     Inr \<lparr> prov_version = JInt 1,
           bundles = [\<lparr> publisher = JObj [(''kind'', JStr ''GitHub'')],
                        attestations = [good_att_info, good_att_info] \<rparr>] \<rparr> \<and>
   iter_field all_good_document ''attestation_bundles'' =
     [JObj [(''publisher'', JObj [(''kind'', JStr ''GitHub'')]),
            (''attestations'', JArr [good_attestation, good_attestation])]]"
proof -
  have b: "JObj [(''publisher'', JObj [(''kind'', JStr ''GitHub'')]),
                 (''attestations'', JArr [good_attestation, bad_attestation])]
             \<in> set (iter_field one_bad_document ''attestation_bundles'')"
    by (simp add: iter_field_def one_bad_document_def)
  have a: "bad_attestation \<in> set (iter_field
             (JObj [(''publisher'', JObj [(''kind'', JStr ''GitHub'')]),
                    (''attestations'', JArr [good_attestation, bad_attestation])])
             ''attestations'')"
    by (simp add: iter_field_def)
  have env: "field bad_attestation ''envelope'' (JObj []) =
               JObj [(''statement'', JStr ''!!!''), (''signature'', JStr ''c2ln'')]"
    by (simp add: field_def bad_attestation_def)
  have st: "map_of [(''statement'', JStr ''!!!''), (''signature'', JStr ''c2ln'')] ''statement'' =
              Some (JStr ''!!!'')"
    by simp
  have bad: "sample_b64_json ''!!!'' = Inl ValueError"
    by (simp add: sample_b64_json_def)
  have good: "parse_provenance_data sample_b64_json all_good_document =
     Inr \<lparr> prov_version = JInt 1,
           bundles = [\<lparr> publisher = JObj [(''kind'', JStr ''GitHub'')],
                        attestations = [good_att_info, good_att_info] \<rparr>] \<rparr>"
    by (simp add: provenance_defs all_good_document_def)
  have its: "iter_field all_good_document ''attestation_bundles'' =
     [JObj [(''publisher'', JObj [(''kind'', JStr ''GitHub'')]),
            (''attestations'', JArr [good_attestation, good_attestation])]]"
    by (simp add: iter_field_def all_good_document_def)
  from parse_provenance_data_all_or_nothing [of one_bad_document sample_b64_json]
       b a env st bad
  have "\<exists>e'. parse_provenance_data sample_b64_json one_bad_document = Inl e'"
    by blast
  with good its show ?thesis by simp
qed




text \<open>
  C4, as stated, fails: the extraction is not attempted for each entry. An unverified
  entry gets no URL although its details hold a full log URL, and a verified entry
  whose details hold a bare log index gets no URL when the details do not contain
  \<^verbatim>\<open>rekor.sigstore.dev\<close>.
\<close>

theorem rekor_url_gated_counterexample:
  "parse_chainver_output rekor_gated_sample =
     Inr \<lparr> verified_count = 1, total_count = 2,
           packages =
             [\<lparr> name = JStr ''click'', version = ''8.3.0'', verified = False,
                 details = JStr ''https://rekor.sigstore.dev/api/v1/log/entries/?logIndex=123'',
                 verification_method = JStr ''none'', rekor_url = None \<rparr>,
              \<lparr> name = JStr ''flask'', version = ''3.1.2'', verified = True,
                 details = JStr ''logIndex: 42'',
                 verification_method = JStr ''signature'', rekor_url = None \<rparr>],
           overall_coverage = JInt 0, artifact_coverage = JInt 0,
           results_details = JStr [] \<rparr> \<and>
   re_search rekor_match_at ''https://rekor.sigstore.dev/api/v1/log/entries/?logIndex=123'' =
     Some ''https://rekor.sigstore.dev/api/v1/log/entries/?logIndex=123'' \<and>
   re_search index_match_at ''logIndex: 42'' = Some ''42''"
  by (simp add: rekor_gated_sample_def normalizer_defs regex_defs)

text \<open>
  C4, amended. In either shape, the URL of a record whose details are a string is
  extracted only when the record is verified and the details contain
  \<^verbatim>\<open>rekor.sigstore.dev\<close>: then it is the first match of the full-URL pattern, or, when
  there is none, the search URL made from the digits of the first match of the
  log-index pattern, or nothing when there is none either. Every other record has no
  URL, and none of this is an error. A match of the full-URL pattern is the fixed
  prefix followed by digits, found in the details, and there is none exactly when the
  prefix is nowhere followed by a digit; a match of the log-index pattern gives the
  digits that follow \<^verbatim>\<open>logIndex\<close> and a run of separators, and there is none exactly
  when the details have no such place.
\<close>

theorem rekor_url_extraction:
  assumes "parse_chainver_output d = Inr r"
  shows "list_all2
           (\<lambda>e p. details p = field e ''details'' (JStr []) \<and>
              (\<forall>s. details p = JStr s \<longrightarrow>
                 rekor_url p =
                   (if verified p \<and> sublist ''rekor.sigstore.dev'' s
                    then (case re_search rekor_match_at s of
                            Some u \<Rightarrow> Some u
                          | None \<Rightarrow> map_option ((@) ''https://search.sigstore.dev/?logIndex='')
                                      (re_search index_match_at s))
                    else None)))
           (selected_entries d) (packages r) \<and>
         (\<forall>s u. re_search rekor_match_at s = Some u \<longrightarrow>
            (\<exists>ds. ds \<noteq> [] \<and> list_all is_digit ds \<and> u = rekor_prefix @ ds \<and> sublist u s)) \<and>
         (\<forall>s. re_search rekor_match_at s = None \<longleftrightarrow>
            \<not> (\<exists>c. is_digit c \<and> sublist (rekor_prefix @ [c]) s)) \<and>
         (\<forall>s ds. re_search index_match_at s = Some ds \<longrightarrow>
            ds \<noteq> [] \<and> list_all is_digit ds \<and>
            (\<exists>seps. seps \<noteq> [] \<and> list_all is_index_sep seps \<and>
                    sublist (''logIndex'' @ seps @ ds) s)) \<and>
         (\<forall>s. re_search index_match_at s = None \<longleftrightarrow>
            \<not> (\<exists>seps c. seps \<noteq> [] \<and> list_all is_index_sep seps \<and> is_digit c \<and>
                        sublist (''logIndex'' @ seps @ [c]) s))"
proof (intro conjI allI impI)
  from parse_chainver_output_Inr [OF assms]
  have "list_all2
      (\<lambda>x p. (if per_artifact_shape d then parse_artifact x else parse_nested x) = Inr p)
      (selected_entries d) (packages r)"
    by simp
  then show "list_all2
           (\<lambda>e p. details p = field e ''details'' (JStr []) \<and>
              (\<forall>s. details p = JStr s \<longrightarrow>
                 rekor_url p =
                   (if verified p \<and> sublist ''rekor.sigstore.dev'' s
                    then (case re_search rekor_match_at s of
                            Some u \<Rightarrow> Some u
                          | None \<Rightarrow> map_option ((@) ''https://search.sigstore.dev/?logIndex='')
                                      (re_search index_match_at s))
                    else None)))
           (selected_entries d) (packages r)"
  proof (rule list_all2_mono)
    fix e p
    assume ep: "(if per_artifact_shape d then parse_artifact e else parse_nested e) = Inr p"
    then have det: "details p = field e ''details'' (JStr [])"
      and url: "extract_rekor_url (verified p) (details p) = Inr (rekor_url p)"
      using parse_artifact_Inr(2,4) [of e p] parse_nested_Inr(2,4) [of e p]
      by (auto split: if_splits)
    from url have "\<forall>s. details p = JStr s \<longrightarrow>
                 rekor_url p =
                   (if verified p \<and> sublist ''rekor.sigstore.dev'' s
                    then (case re_search rekor_match_at s of
                            Some u \<Rightarrow> Some u
                          | None \<Rightarrow> map_option ((@) ''https://search.sigstore.dev/?logIndex='')
                                      (re_search index_match_at s))
                    else None)"
      by (auto simp only: extract_rekor_url_str_eq sum.inject)
    with det show "details p = field e ''details'' (JStr []) \<and>
              (\<forall>s. details p = JStr s \<longrightarrow>
                 rekor_url p =
                   (if verified p \<and> sublist ''rekor.sigstore.dev'' s
                    then (case re_search rekor_match_at s of
                            Some u \<Rightarrow> Some u
                          | None \<Rightarrow> map_option ((@) ''https://search.sigstore.dev/?logIndex='')
                                      (re_search index_match_at s))
                    else None))"
      by blast
  qed
next
  fix s u
  assume "re_search rekor_match_at s = Some u"
  from re_search_Some [OF this] obtain t where t: "suffix t s" "rekor_match_at t = Some u"
    by blast
  from rekor_match_at_Some [OF t(2)] sublist_suffix_prefix [OF t(1)]
  show "\<exists>ds. ds \<noteq> [] \<and> list_all is_digit ds \<and> u = rekor_prefix @ ds \<and> sublist u s"
    by blast
next
  fix s
  show "re_search rekor_match_at s = None \<longleftrightarrow>
            \<not> (\<exists>c. is_digit c \<and> sublist (rekor_prefix @ [c]) s)"
    unfolding re_search_None rekor_match_at_None sublist_altdef' by blast
next
  fix s ds
  assume "re_search index_match_at s = Some ds"
  from re_search_Some [OF this] obtain t where t: "suffix t s" "index_match_at t = Some ds"
    by blast
  from index_match_at_Some [OF t(2)] sublist_suffix_prefix [OF t(1)]
  show "ds \<noteq> []" and "list_all is_digit ds"
    and "\<exists>seps. seps \<noteq> [] \<and> list_all is_index_sep seps \<and>
                    sublist (''logIndex'' @ seps @ ds) s"
    by blast+
next
  fix s
  show "re_search index_match_at s = None \<longleftrightarrow>
            \<not> (\<exists>seps c. seps \<noteq> [] \<and> list_all is_index_sep seps \<and> is_digit c \<and>
                        sublist (''logIndex'' @ seps @ [c]) s)"
    unfolding re_search_None index_match_at_None sublist_altdef' by blast
qed

theorem rekor_url_extraction_witness:
  "parse_chainver_output sample_results =
     Inr \<lparr> verified_count = 2, total_count = 4, packages = sample_results_packages,
           overall_coverage = JInt 50, artifact_coverage = JInt 50,
           results_details = JStr [] \<rparr> \<and>
   map details sample_results_packages =
     [JStr ''rekor.sigstore.dev logIndex=7'', JStr ''rekor.sigstore.dev logIndex: 42'',
      JStr [], JStr ''see https://rekor.sigstore.dev/api/v1/log/entries/?logIndex=123.''] \<and>
   map verified sample_results_packages = [False, True, False, True] \<and>
   map rekor_url sample_results_packages =
     [None, Some ''https://search.sigstore.dev/?logIndex=42'', None,
      Some ''https://rekor.sigstore.dev/api/v1/log/entries/?logIndex=123'']"
  using rekor_url_extraction [OF sample_results_value] sample_results_value
  by (simp add: sample_results_packages_def)

text \<open>
  C5, as stated, fails: \<^verbatim>\<open>total_size\<close> adds the recorded size of every entry, with no
  test for directories. A zip archive can record a size for the directory entry
  \<^verbatim>\<open>a/c/\<close>; with 10, 7 and 20 bytes for the three entries the total is 37, not the 30
  of \<^verbatim>\<open>b.txt\<close> and \<^verbatim>\<open>d.txt\<close>.
\<close>

theorem directory_size_counted_counterexample:
  "get_wheel_contents
     [(''pkg-1.0-py3-none-any.whl'',
       Inr [\<lparr> zi_filename = ''a/b.txt'', zi_file_size = 10, zi_compress_size = 10 \<rparr>,
            \<lparr> zi_filename = ''a/c/'', zi_file_size = 7, zi_compress_size = 7 \<rparr>,
            \<lparr> zi_filename = ''d.txt'', zi_file_size = 20, zi_compress_size = 20 \<rparr>])]
     ''pkg'' ''1.0'' =
   WheelManifest
     \<lparr> mf_package = ''pkg'', mf_version = ''1.0'',
       mf_wheel_file = ''pkg-1.0-py3-none-any.whl'',
       mf_total_files = 3,
       mf_total_size = 37,
       mf_files =
         [\<lparr> fi_path = ''a/b.txt'', fi_size = 10, fi_compressed_size = 10, fi_is_dir = False \<rparr>,
          \<lparr> fi_path = ''a/c/'', fi_size = 7, fi_compressed_size = 7, fi_is_dir = True \<rparr>,
          \<lparr> fi_path = ''d.txt'', fi_size = 20, fi_compressed_size = 20, fi_is_dir = False \<rparr>],
       mf_tree =
         [(''a'', Node ''dir'' None None
             (Some [(''b.txt'', Node ''file'' (Some 10) (Some ''a/b.txt'') None),
                    (''c'', Node ''dir'' None None (Some []))])),
          (''d.txt'', Node ''file'' (Some 20) (Some ''d.txt'') None)] \<rparr>"
  by (simp add: get_wheel_contents_def getinfo_def build_file_tree_def suffix_to_prefix)

text \<open>
  C5, amended. For an archive whose entries are \<^verbatim>\<open>a/b.txt\<close>, the directory entry
  \<^verbatim>\<open>a/c/\<close> and \<^verbatim>\<open>d.txt\<close>, with any recorded sizes, the manifest of
  \<^verbatim>\<open>get_wheel_contents\<close> has a tree with the directory node \<^verbatim>\<open>a\<close>, holding the file
  leaf \<^verbatim>\<open>b.txt\<close> and the empty directory node \<^verbatim>\<open>c\<close>, and next to it the file leaf
  \<^verbatim>\<open>d.txt\<close>; \<^verbatim>\<open>total_files\<close> is 3, and \<^verbatim>\<open>total_size\<close> is the sum of the recorded
  sizes of all three entries, the directory entry included. It is the sum of the sizes
  of \<^verbatim>\<open>b.txt\<close> and \<^verbatim>\<open>d.txt\<close> exactly when the archive records the size 0 for \<^verbatim>\<open>a/c/\<close>.
\<close>

theorem manifest_of_three_entries:
  "get_wheel_contents
     [(wheel_name,
       Inr [\<lparr> zi_filename = ''a/b.txt'', zi_file_size = size_b, zi_compress_size = csize_b \<rparr>,
            \<lparr> zi_filename = ''a/c/'', zi_file_size = size_c, zi_compress_size = csize_c \<rparr>,
            \<lparr> zi_filename = ''d.txt'', zi_file_size = size_d, zi_compress_size = csize_d \<rparr>])]
     package_name ver =
   WheelManifest
     \<lparr> mf_package = package_name, mf_version = ver, mf_wheel_file = wheel_name,
       mf_total_files = 3,
       mf_total_size = size_b + size_c + size_d,
       mf_files =
         [\<lparr> fi_path = ''a/b.txt'', fi_size = size_b, fi_compressed_size = csize_b,
             fi_is_dir = False \<rparr>,
          \<lparr> fi_path = ''a/c/'', fi_size = size_c, fi_compressed_size = csize_c,
             fi_is_dir = True \<rparr>,
          \<lparr> fi_path = ''d.txt'', fi_size = size_d, fi_compressed_size = csize_d,
             fi_is_dir = False \<rparr>],
       mf_tree =
         [(''a'', Node ''dir'' None None
             (Some [(''b.txt'', Node ''file'' (Some size_b) (Some ''a/b.txt'') None),
                    (''c'', Node ''dir'' None None (Some []))])),
          (''d.txt'', Node ''file'' (Some size_d) (Some ''d.txt'') None)] \<rparr> \<and>
   (size_b + size_c + size_d = size_b + size_d \<longleftrightarrow> size_c = 0)"
  by (simp add: get_wheel_contents_def getinfo_def build_file_tree_def suffix_to_prefix)

text \<open>
  C6. A verification run, normal or verbose, requested while \<^verbatim>\<open>authenticated\<close> is false
  is answered at once with the status 401 and the error body; no command is started
  and the log state is left as it was, so nothing is queued and no partial run happens.
\<close>

theorem unauthenticated_run_refused:
  assumes "\<not> authenticated auth"
  shows "chainver_api env auth logs =
           \<lparr> status = 401, response = unauthorized, logs_after = logs, started = [] \<rparr> \<and>
         chainver_verbose_api env auth logs =
           \<lparr> status = 401, response = unauthorized, logs_after = logs, started = [] \<rparr>"
  using assms by (simp add: chainver_api_def chainver_verbose_api_def)

theorem unauthenticated_run_refused_witness:
  "\<not> authenticated \<lparr> authenticated = False, auth_url = Some ''https://auth.example/login'',
                      auth_error = None \<rparr> \<and>
   chainver_api sample_run_env
       \<lparr> authenticated = False, auth_url = Some ''https://auth.example/login'',
         auth_error = None \<rparr> initial_logs =
     \<lparr> status = 401, response = unauthorized, logs_after = initial_logs, started = [] \<rparr> \<and>
   chainver_verbose_api sample_run_env
       \<lparr> authenticated = False, auth_url = Some ''https://auth.example/login'',
         auth_error = None \<rparr> initial_logs =
     \<lparr> status = 401, response = unauthorized, logs_after = initial_logs, started = [] \<rparr> \<and>
   started (chainver_api sample_run_env
       \<lparr> authenticated = True, auth_url = None, auth_error = None \<rparr> initial_logs) =
     [[''chainver'', ''-o'', ''json'', ''--detailed'', ''--parent'', ''example.org'',
       ''/app/wheels/click-8.3.0-py3-none-any.whl'',
       ''/app/wheels/flask-3.1.2-py3-none-any.whl''],
      [''date'']]"
proof -
  have off: "\<not> authenticated \<lparr> authenticated = False,
      auth_url = Some ''https://auth.example/login'', auth_error = None \<rparr>"
    by simp
  have on: "started (chainver_api sample_run_env
       \<lparr> authenticated = True, auth_url = None, auth_error = None \<rparr> initial_logs) =
     [[''chainver'', ''-o'', ''json'', ''--detailed'', ''--parent'', ''example.org'',
       ''/app/wheels/click-8.3.0-py3-none-any.whl'',
       ''/app/wheels/flask-3.1.2-py3-none-any.whl''],
      [''date'']]"
    by (simp add: chainver_api_def get_chainver_results_def record_and_parse_def
          sample_run_env_def Let_def parse_chainver_output_def)
  from unauthenticated_run_refused [OF off, of sample_run_env initial_logs] off on
  show ?thesis by simp
qed

text \<open>
  C7, as stated, fails: in the legacy shape a verified record carries the method the
  tool reports, also when the tool reports \<^verbatim>\<open>none\<close>.
\<close>

theorem verified_with_method_none_counterexample:
  "parse_chainver_output legacy_method_none =
     Inr \<lparr> verified_count = 1, total_count = 1,
           packages = [\<lparr> name = JStr ''flask'', version = ''3.1.2'', verified = True,
                         details = JStr [], verification_method = JStr ''none'',
                         rekor_url = None \<rparr>],
           overall_coverage = JInt 0, artifact_coverage = JInt 0,
           results_details = JStr [] \<rparr>"
  by (simp add: legacy_method_none_def normalizer_defs regex_defs)

text \<open>
  C7, amended. In the per-artifact shape the method of a record is \<^verbatim>\<open>signature\<close> when
  the record is verified and \<^verbatim>\<open>none\<close> otherwise. In the legacy shape the method is
  the entry's \<^verbatim>\<open>verificationMethod\<close>, carried through as it is, and \<^verbatim>\<open>none\<close> when the
  entry has none. So a verified record has a method other than \<^verbatim>\<open>none\<close> in the
  per-artifact shape, and in the legacy shape whenever the tool reports a method other
  than \<^verbatim>\<open>none\<close>.
\<close>

theorem verification_method_by_shape:
  assumes "parse_chainver_output d = Inr r"
  shows "list_all2
           (\<lambda>e p.
              (if per_artifact_shape d
               then verification_method p = JStr (if verified p then ''signature'' else ''none'')
               else verification_method p = field e ''verificationMethod'' (JStr ''none'')) \<and>
              (verified p \<and>
                 (per_artifact_shape d \<or>
                  field e ''verificationMethod'' (JStr ''none'') \<noteq> JStr ''none'')
               \<longrightarrow> verification_method p \<noteq> JStr ''none''))
           (selected_entries d) (packages r)"
proof -
  from parse_chainver_output_Inr [OF assms]
  have "list_all2
      (\<lambda>x p. (if per_artifact_shape d then parse_artifact x else parse_nested x) = Inr p)
      (selected_entries d) (packages r)"
    by simp
  then show ?thesis
    by (rule list_all2_mono)
       (auto simp: parse_artifact_Inr(3) parse_nested_Inr(3) split: if_splits)
qed

theorem verification_method_by_shape_witness:
  "parse_chainver_output sample_nested =
     Inr \<lparr> verified_count = 1, total_count = 2, packages = sample_nested_packages,
           overall_coverage = JInt 50, artifact_coverage = JInt 0,
           results_details = JStr [] \<rparr> \<and>
   \<not> per_artifact_shape sample_nested \<and>
   map (\<lambda>e. field e ''verificationMethod'' (JStr ''none'')) (selected_entries sample_nested) =
     [JStr ''sigstore'', JStr ''none''] \<and>
   map verified sample_nested_packages = [True, False] \<and>
   map verification_method sample_nested_packages = [JStr ''sigstore'', JStr ''none'']"
proof -
  have shape: "\<not> per_artifact_shape sample_nested"
    by (simp add: per_artifact_shape_def sample_nested_def)
  from verification_method_by_shape [OF sample_nested_value] shape sample_nested_value
  show ?thesis
    by (simp add: sample_nested_packages_def selected_entries_def sample_nested_def field_def)
qed

text \<open>
  C8. In the legacy nested shape, a \<^verbatim>\<open>coordinates\<close> string that contains \<^verbatim>\<open>==\<close> is cut
  at its first occurrence into name and version, and for a \<^verbatim>\<open>coordinates\<close> string
  without \<^verbatim>\<open>==\<close> the name is the entry's \<^verbatim>\<open>path\<close> (\<^verbatim>\<open>Unknown\<close> when the entry has
  none) and the version is empty. An absent \<^verbatim>\<open>coordinates\<close> counts as the empty string.
\<close>

theorem legacy_coordinates_split:
  assumes "parse_chainver_output d = Inr r" and "\<not> per_artifact_shape d"
  shows "list_all2
           (\<lambda>e p. \<forall>c. field e ''coordinates'' (JStr []) = JStr c \<longrightarrow>
              (if sublist ''=='' c
               then \<exists>n v. c = n @ ''=='' @ v \<and> (\<forall>k<length n. \<not> prefix ''=='' (drop k c)) \<and>
                          name p = JStr n \<and> version p = v
               else name p = field e ''path'' (JStr ''Unknown'') \<and> version p = []))
           (selected_entries d) (packages r)"
proof -
  from parse_chainver_output_Inr [OF assms(1)] assms(2)
  have "list_all2 (\<lambda>x p. parse_nested x = Inr p) (selected_entries d) (packages r)"
    by simp
  then show ?thesis
    by (rule list_all2_mono) (use parse_nested_Inr(5) in blast)
qed

theorem legacy_coordinates_split_witness:
  "parse_chainver_output sample_nested =
     Inr \<lparr> verified_count = 1, total_count = 2, packages = sample_nested_packages,
           overall_coverage = JInt 50, artifact_coverage = JInt 0,
           results_details = JStr [] \<rparr> \<and>
   \<not> per_artifact_shape sample_nested \<and>
   map (\<lambda>e. field e ''coordinates'' (JStr [])) (selected_entries sample_nested) =
     [JStr ''flask==3.1.2'', JStr ''click''] \<and>
   map name sample_nested_packages = [JStr ''flask'', JStr ''site-packages/click''] \<and>
   map version sample_nested_packages = [''3.1.2'', []]"
proof -
  have shape: "\<not> per_artifact_shape sample_nested"
    by (simp add: per_artifact_shape_def sample_nested_def)
  from legacy_coordinates_split [OF sample_nested_value shape] shape sample_nested_value
  show ?thesis
    by (simp add: sample_nested_packages_def selected_entries_def sample_nested_def field_def)
qed

text \<open>
  C9. In either input shape, a record of \<^verbatim>\<open>parse_chainver_output\<close> with a
  \<^verbatim>\<open>rekor_url\<close> is verified: an unverified record never carries a log URL, whatever
  its details text contains.
\<close>

theorem rekor_url_only_when_verified:
  assumes "parse_chainver_output d = Inr r" and "p \<in> set (packages r)"
    and "rekor_url p \<noteq> None"
  shows "verified p"
proof -
  from parse_chainver_output_Inr [OF assms(1)] list_all2_setD [OF _ assms(2)]
  obtain e where "(if per_artifact_shape d then parse_artifact e else parse_nested e) = Inr p"
    by blast
  then have "extract_rekor_url (verified p) (details p) = Inr (rekor_url p)"
    by (auto simp: parse_artifact_Inr(4) parse_nested_Inr(4) split: if_splits)
  with assms(3) show ?thesis
    by (auto dest: extract_rekor_url_verified)
qed

theorem rekor_url_only_when_verified_witness:
  "parse_chainver_output sample_results =
     Inr \<lparr> verified_count = 2, total_count = 4, packages = sample_results_packages,
           overall_coverage = JInt 50, artifact_coverage = JInt 50,
           results_details = JStr [] \<rparr> \<and>
   rekor_url (sample_results_packages ! 1) = Some ''https://search.sigstore.dev/?logIndex=42'' \<and>
   verified (sample_results_packages ! 1) \<and>
   details (sample_results_packages ! 0) = JStr ''rekor.sigstore.dev logIndex=7'' \<and>
   \<not> verified (sample_results_packages ! 0) \<and>
   rekor_url (sample_results_packages ! 0) = None"
proof -
  have mem: "sample_results_packages ! 1 \<in> set (packages
       \<lparr> verified_count = 2, total_count = 4, packages = sample_results_packages,
           overall_coverage = JInt 50, artifact_coverage = JInt 50,
           results_details = JStr [] \<rparr>)"
    by (simp add: sample_results_packages_def)
  have url: "rekor_url (sample_results_packages ! 1) \<noteq> None"
    by (simp add: sample_results_packages_def)
  from rekor_url_only_when_verified [OF sample_results_value mem url] sample_results_value
  show ?thesis
    by (simp add: sample_results_packages_def)
qed

text \<open>
  C10. Whenever \<^verbatim>\<open>parse_chainver_output\<close> returns, on any input, its result is
  consistent: \<open>total_count\<close> is the length of \<open>packages\<close>, \<open>verified_count\<close> is the number
  of records in \<open>packages\<close> whose \<open>verified\<close> flag is true, and so
  \<open>verified_count \<le> total_count\<close>.
\<close>

theorem parse_chainver_output_counts:
  assumes "parse_chainver_output chainver_data = Inr r"
  shows "total_count r = length (packages r) \<and>
         verified_count r = length (filter verified (packages r)) \<and>
         verified_count r \<le> total_count r"
proof -
  from parse_chainver_output_Inr [OF assms]
  have "length (selected_entries chainver_data) = length (packages r)"
    and "total_count r = length (selected_entries chainver_data)"
    and "verified_count r = length (filter verified (packages r))"
    by (auto dest: list_all2_lengthD)
  then show ?thesis by simp
qed

theorem parse_chainver_output_counts_witness:
  "parse_chainver_output sample_results =
     Inr \<lparr> verified_count = 2, total_count = 4, packages = sample_results_packages,
           overall_coverage = JInt 50, artifact_coverage = JInt 50,
           results_details = JStr [] \<rparr> \<and>
   length sample_results_packages = 4 \<and>
   length (filter verified sample_results_packages) = 2"
  using parse_chainver_output_counts [OF sample_results_value] sample_results_value
  by simp


end
